theory Spec2Isabelle
  imports Main "HOL-Library.AList"
begin

section \<open>The resilient request executor \<open>apiFetch\<close> of \<open>src/app.js\<close>\<close>

text \<open>
  The development embeds the enhanced \<open>apiFetch\<close> wrapper (lines 228 to 318 of
  \<open>src/app.js\<close>): option defaults, header merging, the retry loop with its
  per-attempt abort timer, content-type driven body decoding, construction of the HTTP
  error and the classification of failures in the \<open>catch\<close> block.

  The browser is the environment. What \<open>fetch\<close> does on the attempt with index \<open>k\<close>
  is given by a function from attempt indices to outcomes; what the body readers of a
  response (\<open>json\<close>, \<open>text\<close>, \<open>blob\<close>, \<open>arrayBuffer\<close>) do is stored in the response.
  Everything the function does to the outside (arming and clearing timers, calling
  \<open>fetch\<close>, sleeping before a retry) is recorded in a list of events, returned next to
  the result. A thrown value is the left summand of the result.

  JavaScript numbers are modelled by \<open>int\<close>: the options, the status code and the
  numbers inside a body are integers here, and the model is JavaScript's on the safe
  integers (magnitude at most \<open>2^53 - 1\<close>), where a number is what it denotes, arithmetic
  is exact and \<open>String\<close> writes the plain decimal numeral. A JavaScript string is modelled
  by the bytes of its UTF-8 encoding.
\<close>

subsection \<open>JavaScript values\<close>

datatype jsval =
    JUndefined
  | JNull
  | JBool bool
  | JNum int
  | JStr string
  | JArr "jsval list"
  | JObj "(string \<times> jsval) list"
  | JBlob string
  | JArrayBuffer string

text \<open>Truthiness, as \<open>||\<close> and \<open>!\<close> test it. Every object (array, plain object, blob,
  buffer) is truthy.\<close>

fun truthy :: "jsval \<Rightarrow> bool" where
  "truthy JUndefined = False"
| "truthy JNull = False"
| "truthy (JBool b) = b"
| "truthy (JNum n) = (n \<noteq> 0)"
| "truthy (JStr s) = (s \<noteq> [])"
| "truthy (JArr vs) = True"
| "truthy (JObj kvs) = True"
| "truthy (JBlob bs) = True"
| "truthy (JArrayBuffer bs) = True"

text \<open>\<open>a || b\<close> on values (both operands are pure where this is used).\<close>

definition js_or :: "jsval \<Rightarrow> jsval \<Rightarrow> jsval" where
  "js_or a b = (if truthy a then a else b)"

text \<open>\<open>data?.key\<close> for the keys \<open>message\<close> and \<open>error\<close>: \<open>undefined\<close> on \<open>null\<close> and
  \<open>undefined\<close> (the optional chain), and on every value that has no such property
  (strings, numbers, booleans, arrays, blobs, buffers); the stored value on a plain
  object that has the key.\<close>

fun opt_prop :: "jsval \<Rightarrow> string \<Rightarrow> jsval" where
  "opt_prop (JObj kvs) k = (case map_of kvs k of Some v \<Rightarrow> v | None \<Rightarrow> JUndefined)"
| "opt_prop v k = JUndefined"

text \<open>Decimal rendering of a number, as a template literal and \<open>String\<close> give it for
  integers.\<close>

definition digit_char :: "nat \<Rightarrow> char" where
  "digit_char d =
     (if d = 0 then CHR ''0'' else if d = 1 then CHR ''1'' else if d = 2 then CHR ''2''
      else if d = 3 then CHR ''3'' else if d = 4 then CHR ''4'' else if d = 5 then CHR ''5''
      else if d = 6 then CHR ''6'' else if d = 7 then CHR ''7'' else if d = 8 then CHR ''8''
      else CHR ''9'')"

function show_nat :: "nat \<Rightarrow> string" where
  "show_nat n = (if n < 10 then [digit_char n] else show_nat (n div 10) @ [digit_char (n mod 10)])"
  by pat_completeness auto
termination
  by (relation "measure (\<lambda>n. n)") auto

declare show_nat.simps [simp del]

definition show_int :: "int \<Rightarrow> string" where
  "show_int i = (if i < 0 then CHR ''-'' # show_nat (nat (- i)) else show_nat (nat i))"

text \<open>The range on which the model's numbers are JavaScript's, for a number and for the
  numbers that \<open>String\<close> would write out of a value (those of an object are never
  written).\<close>

definition safe_integer :: "int \<Rightarrow> bool" where
  "safe_integer i = (- 9007199254740991 \<le> i \<and> i \<le> 9007199254740991)"

fun safe_numbers :: "jsval \<Rightarrow> bool" where
  "safe_numbers (JNum n) = safe_integer n"
| "safe_numbers (JArr vs) = list_all safe_numbers vs"
| "safe_numbers v = True"

text \<open>The value of a decimal numeral, to say what \<open>show_nat\<close> writes.\<close>

definition digit_value :: "char \<Rightarrow> nat" where
  "digit_value c = of_char c - 48"

definition decimal_value :: "string \<Rightarrow> nat" where
  "decimal_value s = foldl (\<lambda>a c. 10 * a + digit_value c) 0 s"

text \<open>\<open>String(v)\<close>, which \<open>new Error(v)\<close> applies to its argument; \<open>None\<close> when it throws a
  \<open>TypeError\<close>. An array joins its elements with commas, \<open>null\<close> and \<open>undefined\<close> elements
  giving the empty string, and throws when an element does. A plain object is converted
  by its \<open>toString\<close> method: the inherited one gives \<open>[object Object]\<close>; an own property
  \<open>toString\<close> of a decoded body is never a function and hides the inherited one, and then
  neither it nor \<open>valueOf\<close> gives a primitive, so the conversion throws.\<close>

fun join_comma :: "string list \<Rightarrow> string" where
  "join_comma [] = []"
| "join_comma [s] = s"
| "join_comma (s # t # ss) = s @ CHR '','' # join_comma (t # ss)"

fun to_string :: "jsval \<Rightarrow> string option" where
  "to_string JUndefined = Some ''undefined''"
| "to_string JNull = Some ''null''"
| "to_string (JBool b) = Some (if b then ''true'' else ''false'')"
| "to_string (JNum n) = Some (show_int n)"
| "to_string (JStr s) = Some s"
| "to_string (JArr vs) =
     map_option join_comma
       (those (map (\<lambda>v. if v = JUndefined \<or> v = JNull then Some [] else to_string v) vs))"
| "to_string (JObj kvs) =
     (if map_of kvs ''toString'' = None then Some ''[object Object]'' else None)"
| "to_string (JBlob bs) = Some ''[object Blob]''"
| "to_string (JArrayBuffer bs) = Some ''[object ArrayBuffer]''"

text \<open>\<open>s.includes(p)\<close>: \<open>p\<close> occurs in \<open>s\<close> as a contiguous substring.\<close>

fun starts_with :: "string \<Rightarrow> string \<Rightarrow> bool" where
  "starts_with s [] = True"
| "starts_with [] (p # ps) = False"
| "starts_with (c # cs) (p # ps) = (c = p \<and> starts_with cs ps)"

fun js_includes :: "string \<Rightarrow> string \<Rightarrow> bool" where
  "js_includes [] p = (p = [])"
| "js_includes (c # cs) p = (starts_with (c # cs) p \<or> js_includes cs p)"

subsection \<open>Errors, responses, and what \<open>fetch\<close> does\<close>

text \<open>An error object: its \<open>name\<close> and \<open>message\<close>, and the four properties that
  \<open>apiFetch\<close> attaches to an HTTP error. \<open>None\<close> and \<open>JUndefined\<close> stand for a property
  that is not there.\<close>

record js_error =
  err_name :: string
  err_message :: string
  err_status :: "int option"
  err_statusText :: "string option"
  err_data :: jsval
  err_url :: "string option"

text \<open>\<open>new Error(msg)\<close>.\<close>

definition new_Error :: "string \<Rightarrow> js_error" where
  "new_Error msg =
     \<lparr>err_name = ''Error'', err_message = msg, err_status = None, err_statusText = None,
      err_data = JUndefined, err_url = None\<rparr>"

text \<open>What a function throws: an error object, or (for \<open>throw lastError\<close> before any
  assignment) the value \<open>undefined\<close>.\<close>

datatype thrown = ThrownUndefined | Thrown js_error

text \<open>The error that \<open>String\<close> throws on an object it cannot convert.\<close>

definition type_error :: js_error where
  "type_error =
     \<lparr>err_name = ''TypeError'', err_message = ''Cannot convert object to primitive value'',
      err_status = None, err_statusText = None, err_data = JUndefined, err_url = None\<rparr>"

text \<open>How the reader \<open>text()\<close> turns the bytes of a body into a string: it decodes them as
  UTF-8. One leading byte order mark (EF BB BF) is dropped; a well-formed sequence is
  kept; each ill-formed sequence (a byte that cannot start a sequence, or a sequence cut
  short by a byte that cannot continue it or by the end) becomes U+FFFD, and the byte
  that cut it short is read again. As strings are held in UTF-8, the result is again a
  list of bytes, with EF BF BD for U+FFFD.\<close>

definition byte :: "char \<Rightarrow> nat" where
  "byte c = of_char c"

definition in_range :: "nat \<Rightarrow> nat \<Rightarrow> char \<Rightarrow> bool" where
  "in_range lo hi c = (lo \<le> byte c \<and> byte c \<le> hi)"

definition replacement :: string where
  "replacement = [CHR 0xEF, CHR 0xBF, CHR 0xBD]"

fun utf8_scan :: "string \<Rightarrow> string" where
  "utf8_scan [] = []"
| "utf8_scan (b # bs) =
     (if in_range 0x00 0x7F b then b # utf8_scan bs
      else if in_range 0xC2 0xDF b then
        (case bs of
           [] \<Rightarrow> replacement
         | c1 # r1 \<Rightarrow>
             if in_range 0x80 0xBF c1 then b # c1 # utf8_scan r1
             else replacement @ utf8_scan bs)
      else if in_range 0xE0 0xEF b then
        (case bs of
           [] \<Rightarrow> replacement
         | c1 # r1 \<Rightarrow>
             if in_range (if byte b = 0xE0 then 0xA0 else 0x80)
                         (if byte b = 0xED then 0x9F else 0xBF) c1 then
               (case r1 of
                  [] \<Rightarrow> replacement
                | c2 # r2 \<Rightarrow>
                    if in_range 0x80 0xBF c2 then b # c1 # c2 # utf8_scan r2
                    else replacement @ utf8_scan r1)
             else replacement @ utf8_scan bs)
      else if in_range 0xF0 0xF4 b then
        (case bs of
           [] \<Rightarrow> replacement
         | c1 # r1 \<Rightarrow>
             if in_range (if byte b = 0xF0 then 0x90 else 0x80)
                         (if byte b = 0xF4 then 0x8F else 0xBF) c1 then
               (case r1 of
                  [] \<Rightarrow> replacement
                | c2 # r2 \<Rightarrow>
                    if in_range 0x80 0xBF c2 then
                      (case r2 of
                         [] \<Rightarrow> replacement
                       | c3 # r3 \<Rightarrow>
                           if in_range 0x80 0xBF c3 then b # c1 # c2 # c3 # utf8_scan r3
                           else replacement @ utf8_scan r2)
                    else replacement @ utf8_scan r1)
             else replacement @ utf8_scan bs)
      else replacement @ utf8_scan bs)"

definition utf8_decode :: "string \<Rightarrow> string" where
  "utf8_decode bs =
     utf8_scan (if take 3 bs = [CHR 0xEF, CHR 0xBB, CHR 0xBF] then drop 3 bs else bs)"

text \<open>A response as \<open>apiFetch\<close> reads it. \<open>res_content_type\<close> is
  \<open>res.headers.get('content-type')\<close> (\<open>None\<close> for \<open>null\<close>). \<open>res_body\<close> is what reading
  the body gives: the bytes that the transport delivered, or the error that the read
  fails with; \<open>text()\<close> resolves to those bytes decoded. What \<open>json()\<close>, \<open>blob()\<close> and
  \<open>arrayBuffer()\<close> do is given: each rejects with an error (\<open>Inl\<close>) or resolves; \<open>blob\<close>
  and \<open>arrayBuffer\<close> are called through \<open>?.()\<close>, so they may be absent (\<open>None\<close>).\<close>

record response =
  res_ok :: bool
  res_status :: int
  res_statusText :: string
  res_content_type :: "string option"
  res_json :: "js_error + jsval"
  res_body :: "js_error + string"
  res_blob :: "(js_error + jsval) option"
  res_arrayBuffer :: "(js_error + jsval) option"

definition res_text :: "response \<Rightarrow> js_error + string" where
  "res_text res = (case res_body res of Inl e \<Rightarrow> Inl e | Inr bs \<Rightarrow> Inr (utf8_decode bs))"

text \<open>The outcome of one \<open>await fetch(url, init)\<close>: a response arrives before the abort
  timer fires; or the timer fires first, aborts the controller and \<open>fetch\<close> rejects with
  an \<open>AbortError\<close>; or \<open>fetch\<close> rejects for a reason of its own (a network failure)
  while the timer is still pending.\<close>

datatype fetch_outcome = Responded response | TimedOut | Failed js_error

definition abort_error :: js_error where
  "abort_error =
     \<lparr>err_name = ''AbortError'', err_message = ''The operation was aborted.'',
      err_status = None, err_statusText = None, err_data = JUndefined, err_url = None\<rparr>"

subsection \<open>Options and the request\<close>

text \<open>The \<open>opts\<close> argument. \<open>None\<close> is a property that is \<open>undefined\<close>, for which the
  destructuring default applies. \<open>others\<close> are the remaining properties (method, body
  and so on), which the rest pattern collects and the call spreads into the argument of
  \<open>fetch\<close>.\<close>

record options =
  timeout :: "int option"
  retries :: "int option"
  retryDelay :: "int option"
  includeCredentials :: "bool option"
  headers :: "(string \<times> string) list option"
  others :: "(string \<times> jsval) list"

text \<open>The second argument of \<open>fetch\<close> (lines 256 to 259). The signal is identified with
  the index of the attempt whose \<open>AbortController\<close> it belongs to. \<open>credentials\<close> and
  \<open>signal\<close> are written after the spread, so a property of the caller under either name
  is overwritten: it is not among \<open>init_others\<close>.\<close>

record request_init =
  init_headers :: "(string \<times> string) list"
  init_others :: "(string \<times> jsval) list"
  init_credentials :: string
  init_signal :: nat

text \<open>The effects of a call, in the order they happen. A timer is named by the index of
  the attempt that armed it. \<open>TimerFired\<close> is the environment's event that goes with the
  outcome \<open>TimedOut\<close>. \<open>Delay ms\<close> is the awaited \<open>setTimeout(resolve, ms)\<close> before a
  retry.\<close>

datatype event =
    SetTimeout nat int
  | Fetch string request_init
  | ClearTimeout nat
  | TimerFired nat
  | Delay int

text \<open>The values that the function fixes before the loop.\<close>

record config =
  c_timeout :: int
  c_retries :: int
  c_retryDelay :: int
  c_includeCredentials :: bool
  c_headers :: "(string \<times> string) list"
  c_others :: "(string \<times> jsval) list"
  c_url :: string

text \<open>Lines 239 to 243: a fresh object with the caller's headers spread first, then
  \<open>X-API-KEY\<close>, then \<open>Content-Type\<close>, which is the caller's value when that is truthy and
  \<open>application/json\<close> otherwise. An object is a list of its properties in insertion
  order, each key once; assigning a key that is already there replaces its value in
  place.\<close>

definition merge_headers :: "string \<Rightarrow> (string \<times> string) list option \<Rightarrow> (string \<times> string) list" where
  "merge_headers apiKey hs =
     (let spread = (case hs of None \<Rightarrow> [] | Some h \<Rightarrow> h);
          supplied = (case hs of None \<Rightarrow> None | Some h \<Rightarrow> map_of h ''Content-Type'');
          contentType = (case supplied of
                           None \<Rightarrow> ''application/json''
                         | Some v \<Rightarrow> if v \<noteq> [] then v else ''application/json'')
      in AList.update ''Content-Type'' contentType (AList.update ''X-API-KEY'' apiKey spread))"

definition make_init :: "config \<Rightarrow> nat \<Rightarrow> request_init" where
  "make_init c attempt =
     \<lparr>init_headers = c_headers c,
      init_others = filter (\<lambda>(k, v). k \<noteq> ''credentials'' \<and> k \<noteq> ''signal'') (c_others c),
      init_credentials = (if c_includeCredentials c then ''include'' else ''omit''),
      init_signal = attempt\<rparr>"

subsection \<open>One attempt\<close>

text \<open>Lines 268 to 275, the inner \<open>try\<close>: the body reader is chosen by the content
  type. \<open>Inl\<close> is the error a reader rejected with.\<close>

definition read_optional :: "(js_error + jsval) option \<Rightarrow> js_error + jsval" where
  "read_optional m = (case m of None \<Rightarrow> Inr JUndefined | Some r \<Rightarrow> r)"

definition read_body :: "response \<Rightarrow> js_error + jsval" where
  "read_body res =
     (let contentType = (case res_content_type res of
                           None \<Rightarrow> []
                         | Some ct \<Rightarrow> ct)
      in if js_includes contentType ''application/json'' then res_json res
         else if js_includes contentType ''text/'' then
           (case res_text res of Inl e \<Rightarrow> Inl e | Inr s \<Rightarrow> Inr (JStr s))
         else
           (case read_optional (res_blob res) of
              Inl e \<Rightarrow> Inl e
            | Inr b \<Rightarrow>
                if truthy b then Inr b
                else (case read_optional (res_arrayBuffer res) of
                        Inl e \<Rightarrow> Inl e
                      | Inr a \<Rightarrow> Inr (js_or a JNull))))"

text \<open>Lines 267 to 278: a rejected reader is rethrown as a new error that quotes the
  message of the original one.\<close>

definition parse_body :: "response \<Rightarrow> js_error + jsval" where
  "parse_body res =
     (case read_body res of
        Inl parseError \<Rightarrow> Inl (new_Error (''Failed to parse response: '' @ err_message parseError))
      | Inr data \<Rightarrow> Inr data)"

text \<open>Lines 282 to 294, for a response that is not ok: the value chosen for the message
  (282 to 286); the error object once \<open>new Error\<close> has turned that value into the string
  \<open>msg\<close> (288 to 292); and what these lines throw, which is the \<open>TypeError\<close> of
  \<open>new Error\<close> when the value has no string form, and the error object otherwise.\<close>

definition error_message :: "response \<Rightarrow> jsval \<Rightarrow> jsval" where
  "error_message res data =
     js_or (js_or (js_or (js_or (opt_prop data ''message'') (opt_prop data ''error'')) data)
                  (JStr (res_statusText res)))
           (JStr (''HTTP '' @ show_int (res_status res)))"

definition http_error :: "string \<Rightarrow> response \<Rightarrow> jsval \<Rightarrow> string \<Rightarrow> js_error" where
  "http_error url res data msg =
     \<lparr>err_name = ''Error'', err_message = msg,
      err_status = Some (res_status res), err_statusText = Some (res_statusText res),
      err_data = data, err_url = Some url\<rparr>"

definition throw_not_ok :: "string \<Rightarrow> response \<Rightarrow> jsval \<Rightarrow> js_error" where
  "throw_not_ok url res data =
     (case to_string (error_message res data) of
        None \<Rightarrow> type_error
      | Some msg \<Rightarrow> http_error url res data msg)"

text \<open>Lines 250 to 297, the \<open>try\<close> block of the attempt with the given index: what it
  returns (\<open>Inr\<close>) or throws (\<open>Inl\<close>), and its events. \<open>clearTimeout\<close> is reached only
  when \<open>fetch\<close> resolves.\<close>

definition try_block :: "config \<Rightarrow> (nat \<Rightarrow> fetch_outcome) \<Rightarrow> nat \<Rightarrow> (js_error + jsval) \<times> event list" where
  "try_block c fetch attempt =
     (let started = [SetTimeout attempt (c_timeout c), Fetch (c_url c) (make_init c attempt)]
      in case fetch attempt of
           TimedOut \<Rightarrow> (Inl abort_error, started @ [TimerFired attempt])
         | Failed e \<Rightarrow> (Inl e, started)
         | Responded res \<Rightarrow>
             (case parse_body res of
                Inl e \<Rightarrow> (Inl e, started @ [ClearTimeout attempt])
              | Inr data \<Rightarrow>
                  if \<not> res_ok res
                  then (Inl (throw_not_ok (c_url c) res data), started @ [ClearTimeout attempt])
                  else (Inr data, started @ [ClearTimeout attempt])))"

text \<open>Lines 299 to 314, the \<open>catch\<close> block after \<open>lastError = error\<close>: \<open>Some t\<close> when it
  throws \<open>t\<close> out of the function, \<open>None\<close> when the loop goes on; and its events. A
  comparison with a status that is \<open>undefined\<close> is false.\<close>

definition is_client_status :: "int option \<Rightarrow> bool" where
  "is_client_status st = (case st of None \<Rightarrow> False | Some s \<Rightarrow> 400 \<le> s \<and> s < 500)"

definition catch_block :: "config \<Rightarrow> nat \<Rightarrow> js_error \<Rightarrow> thrown option \<times> event list" where
  "catch_block c attempt error =
     (if err_name error = ''AbortError''
      then (Some (Thrown (new_Error (''Request timeout after '' @ show_int (c_timeout c) @ ''ms''))), [])
      else if is_client_status (err_status error) then (Some (Thrown error), [])
      else if int attempt < c_retries c
      then (None, [Delay (c_retryDelay c * (int attempt + 1))])
      else (None, []))"

subsection \<open>The retry loop and the function\<close>

text \<open>Lines 249 to 317: \<open>for (let attempt = 0; attempt <= retries; attempt++)\<close>, followed
  by \<open>throw lastError\<close>.\<close>

function attempts :: "config \<Rightarrow> (nat \<Rightarrow> fetch_outcome) \<Rightarrow> nat \<Rightarrow> thrown \<Rightarrow> (thrown + jsval) \<times> event list" where
  "attempts c fetch attempt lastError =
     (if int attempt \<le> c_retries c then
        (case try_block c fetch attempt of
           (Inr data, evs) \<Rightarrow> (Inr data, evs)
         | (Inl error, evs) \<Rightarrow>
             (case catch_block c attempt error of
                (Some t, evs') \<Rightarrow> (Inl t, evs @ evs')
              | (None, evs') \<Rightarrow>
                  (case attempts c fetch (Suc attempt) (Thrown error) of
                     (r, rest) \<Rightarrow> (r, evs @ evs' @ rest))))
      else (Inl lastError, []))"
  by pat_completeness auto
termination
  by (relation "measure (\<lambda>(c, fetch, attempt, lastError). nat (c_retries c + 1 - int attempt))") auto

declare attempts.simps [simp del]

text \<open>Lines 228 to 318. \<open>apiBase\<close> and \<open>apiKey\<close> are constants of the enclosing script;
  they are parameters here. The three numeric options with their destructuring defaults
  (lines 231 to 233) come first.\<close>

definition timeout_of :: "options \<Rightarrow> int" where
  "timeout_of opts = (case timeout opts of None \<Rightarrow> 30000 | Some t \<Rightarrow> t)"

definition retries_of :: "options \<Rightarrow> int" where
  "retries_of opts = (case retries opts of None \<Rightarrow> 0 | Some r \<Rightarrow> r)"

definition retryDelay_of :: "options \<Rightarrow> int" where
  "retryDelay_of opts = (case retryDelay opts of None \<Rightarrow> 1000 | Some d \<Rightarrow> d)"

definition make_config :: "string \<Rightarrow> string \<Rightarrow> string \<Rightarrow> options \<Rightarrow> config" where
  "make_config apiBase apiKey path opts =
     \<lparr>c_timeout = timeout_of opts,
      c_retries = retries_of opts,
      c_retryDelay = retryDelay_of opts,
      c_includeCredentials = (case includeCredentials opts of None \<Rightarrow> True | Some b \<Rightarrow> b),
      c_headers = merge_headers apiKey (headers opts),
      c_others = others opts,
      c_url = apiBase @ path\<rparr>"

definition apiFetch :: "string \<Rightarrow> string \<Rightarrow> (nat \<Rightarrow> fetch_outcome) \<Rightarrow> string \<Rightarrow> options \<Rightarrow> (thrown + jsval) \<times> event list" where
  "apiFetch apiBase apiKey fetch path opts =
     attempts (make_config apiBase apiKey path opts) fetch 0 ThrownUndefined"

subsection \<open>Reading a trace\<close>

text \<open>The indices of the attempts that called \<open>fetch\<close>, the retry delays, the abort
  timers that are still armed at the end, and the course of a call (\<open>schedule\<close>): in the
  order they happen, the start of each attempt (when its abort timer is armed), its
  request, and the waits.\<close>

fun attempt_indices :: "event list \<Rightarrow> nat list" where
  "attempt_indices [] = []"
| "attempt_indices (Fetch u i # es) = init_signal i # attempt_indices es"
| "attempt_indices (e # es) = attempt_indices es"

fun delays :: "event list \<Rightarrow> int list" where
  "delays [] = []"
| "delays (Delay ms # es) = ms # delays es"
| "delays (e # es) = delays es"

fun armed_timers :: "nat list \<Rightarrow> event list \<Rightarrow> nat list" where
  "armed_timers ts [] = ts"
| "armed_timers ts (SetTimeout k ms # es) = armed_timers (ts @ [k]) es"
| "armed_timers ts (ClearTimeout k # es) = armed_timers (removeAll k ts) es"
| "armed_timers ts (TimerFired k # es) = armed_timers (removeAll k ts) es"
| "armed_timers ts (e # es) = armed_timers ts es"

datatype step = Start nat | Attempt nat | Wait int

fun schedule :: "event list \<Rightarrow> step list" where
  "schedule [] = []"
| "schedule (SetTimeout k ms # es) = Start k # schedule es"
| "schedule (Fetch u i # es) = Attempt (init_signal i) # schedule es"
| "schedule (Delay ms # es) = Wait ms # schedule es"
| "schedule (e # es) = schedule es"


subsection \<open>Failures that the loop retries\<close>


subsection \<open>Sample inputs\<close>

text \<open>Options that set nothing but \<open>retries\<close>, a response with a JSON content type, a
  response with a CSV content type, a response with no content type and given binary
  readers, and the error of a failed connection. They are the concrete inputs at which the
  theorems below are instantiated.\<close>

definition plain_opts :: "int option \<Rightarrow> options" where
  "plain_opts r =
     \<lparr>timeout = None, retries = r, retryDelay = None, includeCredentials = None,
      headers = None, others = []\<rparr>"

definition json_response :: "bool \<Rightarrow> int \<Rightarrow> string \<Rightarrow> js_error + jsval \<Rightarrow> response" where
  "json_response ok st stText body =
     \<lparr>res_ok = ok, res_status = st, res_statusText = stText,
      res_content_type = Some ''application/json'',
      res_json = body, res_body = Inr [], res_blob = None, res_arrayBuffer = None\<rparr>"

definition csv_response :: "string \<Rightarrow> response" where
  "csv_response body =
     \<lparr>res_ok = True, res_status = 200, res_statusText = ''OK'',
      res_content_type = Some ''text/csv'',
      res_json = Inl (new_Error ''Unexpected token''), res_body = Inr body,
      res_blob = None, res_arrayBuffer = None\<rparr>"

definition binary_response :: "(js_error + jsval) option \<Rightarrow> (js_error + jsval) option \<Rightarrow> response" where
  "binary_response b a =
     \<lparr>res_ok = True, res_status = 200, res_statusText = ''OK'',
      res_content_type = None,
      res_json = Inl (new_Error ''Unexpected token''), res_body = Inr [],
      res_blob = b, res_arrayBuffer = a\<rparr>"

definition network_error :: js_error where
  "network_error =
     \<lparr>err_name = ''TypeError'', err_message = ''Failed to fetch'', err_status = None,
      err_statusText = None, err_data = JUndefined, err_url = None\<rparr>"

text \<open>Environments: every attempt has the same outcome; or the first \<open>n\<close> attempts have
  one outcome and the later ones another. And options that set every field, with
  \<open>credentials\<close> and \<open>signal\<close> among the remaining properties.\<close>

definition always :: "fetch_outcome \<Rightarrow> nat \<Rightarrow> fetch_outcome" where
  "always out k = out"

definition fail_then :: "nat \<Rightarrow> fetch_outcome \<Rightarrow> fetch_outcome \<Rightarrow> nat \<Rightarrow> fetch_outcome" where
  "fail_then n bad good k = (if k < n then bad else good)"


text \<open>Options that set the three numeric fields; options that set nothing but the
  headers; an ok response with a content type, a result of \<open>json()\<close>, body bytes and a
  result of \<open>blob()\<close> of the caller's choice; and the message of the error that a call
  throws.\<close>

definition tuned_opts :: "int \<Rightarrow> int \<Rightarrow> int \<Rightarrow> options" where
  "tuned_opts t r d =
     \<lparr>timeout = Some t, retries = Some r, retryDelay = Some d, includeCredentials = None,
      headers = None, others = []\<rparr>"

definition header_opts :: "(string \<times> string) list \<Rightarrow> options" where
  "header_opts hs =
     \<lparr>timeout = None, retries = None, retryDelay = None, includeCredentials = None,
      headers = Some hs, others = []\<rparr>"

definition response_with ::
  "string option \<Rightarrow> js_error + jsval \<Rightarrow> string \<Rightarrow> (js_error + jsval) option \<Rightarrow> response" where
  "response_with ct js body bl =
     \<lparr>res_ok = True, res_status = 200, res_statusText = ''OK'', res_content_type = ct,
      res_json = js, res_body = Inr body, res_blob = bl, res_arrayBuffer = None\<rparr>"

definition message_of :: "thrown + jsval \<Rightarrow> string" where
  "message_of res = (case res of Inl (Thrown e) \<Rightarrow> err_message e | _ \<Rightarrow> [])"

subsection \<open>Header names without regard to case\<close>



subsection \<open>Two more readings of the environment\<close>

text \<open>\<open>network_failed\<close>: \<open>fetch\<close> rejected while the abort timer was pending.
  \<open>yields_nothing\<close>: an optional body reader is absent or resolves to a falsy value, so
  that \<open>||\<close> moves on to its next operand.\<close>

fun network_failed :: "fetch_outcome \<Rightarrow> bool" where
  "network_failed (Failed e) = True"
| "network_failed out = False"

definition yields_nothing :: "(js_error + jsval) option \<Rightarrow> bool" where
  "yields_nothing m = (case read_optional m of Inl e \<Rightarrow> False | Inr v \<Rightarrow> \<not> truthy v)"

section \<open>Auxiliary facts\<close>

subsection \<open>Unfolding the loop and evaluating concrete runs\<close>

lemma show_nat_small: "n < 10 \<Longrightarrow> show_nat n = [digit_char n]"
  by (simp add: show_nat.simps)

lemma show_nat_big: "\<not> n < 10 \<Longrightarrow> show_nat n = show_nat (n div 10) @ [digit_char (n mod 10)]"
  by (subst show_nat.simps) simp

lemmas show_eval = show_int_def show_nat_small show_nat_big digit_char_def

lemma attempts_stop: "\<not> int a \<le> c_retries c \<Longrightarrow> attempts c f a l = (Inl l, [])"
  by (simp add: attempts.simps)

lemma attempts_return:
  "int a \<le> c_retries c \<Longrightarrow> try_block c f a = (Inr d, evs) \<Longrightarrow> attempts c f a l = (Inr d, evs)"
  by (subst attempts.simps) simp

lemma attempts_throw:
  "int a \<le> c_retries c \<Longrightarrow> try_block c f a = (Inl e, evs) \<Longrightarrow> catch_block c a e = (Some t, evs')
   \<Longrightarrow> attempts c f a l = (Inl t, evs @ evs')"
  by (subst attempts.simps) simp

lemma attempts_retry:
  "int a \<le> c_retries c \<Longrightarrow> try_block c f a = (Inl e, evs) \<Longrightarrow> catch_block c a e = (None, evs')
   \<Longrightarrow> attempts c f a l =
       (fst (attempts c f (Suc a) (Thrown e)), evs @ evs' @ snd (attempts c f (Suc a) (Thrown e)))"
  by (subst attempts.simps) (simp add: case_prod_beta)

lemma attempt_indices_append: "attempt_indices (xs @ ys) = attempt_indices xs @ attempt_indices ys"
  by (induction xs rule: attempt_indices.induct) simp_all

lemma delays_append: "delays (xs @ ys) = delays xs @ delays ys"
  by (induction xs rule: delays.induct) simp_all


lemma armed_timers_append: "armed_timers ts (xs @ ys) = armed_timers (armed_timers ts xs) ys"
  by (induction ts xs rule: armed_timers.induct) simp_all

lemma try_block_indices: "attempt_indices (snd (try_block c f a)) = [a]"
  by (simp add: try_block_def make_init_def Let_def split: fetch_outcome.splits sum.splits)

lemma try_block_delays: "delays (snd (try_block c f a)) = []"
  by (simp add: try_block_def Let_def split: fetch_outcome.splits sum.splits)


lemma catch_block_indices: "attempt_indices (snd (catch_block c a e)) = []"
  by (simp add: catch_block_def)


lemma catch_block_throw_delays: "catch_block c a e = (Some t, evs') \<Longrightarrow> evs' = []"
  by (simp add: catch_block_def split: if_splits)

lemma catch_block_continue:
  "catch_block c a e = (None, evs') \<Longrightarrow>
     evs' = (if int a < c_retries c then [Delay (c_retryDelay c * (int a + 1))] else [])"
  by (simp add: catch_block_def split: if_splits)

subsection \<open>The shape of every trace\<close>

lemma attempts_shape:
  "attempt_indices (snd (attempts c f a l)) = [a ..< a + length (attempt_indices (snd (attempts c f a l)))]
   \<and> delays (snd (attempts c f a l)) =
       map (\<lambda>k. c_retryDelay c * (int k + 1)) [a ..< a + length (attempt_indices (snd (attempts c f a l))) - 1]
   \<and> int a + int (length (attempt_indices (snd (attempts c f a l)))) \<le> max (int a) (c_retries c + 1)
   \<and> (if int a \<le> c_retries c then attempt_indices (snd (attempts c f a l)) \<noteq> [] else snd (attempts c f a l) = [])"
proof (induction n \<equiv> "nat (c_retries c + 1 - int a)" arbitrary: a l)
  case 0
  then have "\<not> int a \<le> c_retries c" by simp
  then show ?case by (simp add: attempts_stop)
next
  case (Suc n)
  then have le: "int a \<le> c_retries c" by simp
  obtain r evs where tb: "try_block c f a = (r, evs)" by (cases "try_block c f a")
  have ai: "attempt_indices evs = [a]" and dl: "delays evs = []"
    using try_block_indices [of c f a] try_block_delays [of c f a] tb by simp_all
  show ?case
  proof (cases r)
    case (Inr d)
    then show ?thesis using le tb ai dl by (simp add: attempts_return)
  next
    case (Inl e)
    obtain t evs' where cb: "catch_block c a e = (t, evs')" by (cases "catch_block c a e")
    have ci: "attempt_indices evs' = []" using catch_block_indices [of c a e] cb by simp
    show ?thesis
    proof (cases t)
      case (Some th)
      then have "evs' = []" using cb catch_block_throw_delays by blast
      then show ?thesis using le tb Inl cb Some ai dl
        by (simp add: attempts_throw [OF le _ _])
    next
      case None
      have ev: "evs' = (if int a < c_retries c then [Delay (c_retryDelay c * (int a + 1))] else [])"
        using cb None catch_block_continue by blast
      have eq: "attempts c f a l =
          (fst (attempts c f (Suc a) (Thrown e)), evs @ evs' @ snd (attempts c f (Suc a) (Thrown e)))"
        using attempts_retry le tb Inl cb None by blast
      have m: "n = nat (c_retries c + 1 - int (Suc a))" using Suc.hyps(2) by simp
      note IH = Suc.hyps(1) [OF m, of "Thrown e"]
      show ?thesis
      proof (cases "int a < c_retries c")
        case True
        then have ne: "attempt_indices (snd (attempts c f (Suc a) (Thrown e))) \<noteq> []"
          using IH by simp
        define m where "m = length (attempt_indices (snd (attempts c f (Suc a) (Thrown e))))"
        have mpos: "0 < m" using ne by (simp add: m_def)
        have i1: "attempt_indices (snd (attempts c f (Suc a) (Thrown e))) = [Suc a ..< Suc a + m]"
          using IH by (simp add: m_def)
        have d1: "delays (snd (attempts c f (Suc a) (Thrown e))) =
            map (\<lambda>k. c_retryDelay c * (int k + 1)) [Suc a ..< Suc a + m - 1]"
          using IH by (simp add: m_def)
        have b1: "int (Suc a) + int m \<le> max (int (Suc a)) (c_retries c + 1)"
          using IH by (simp add: m_def)
        have len: "length (attempt_indices (snd (attempts c f a l))) = Suc m"
          by (simp add: eq attempt_indices_append ai ci m_def)
        have "attempt_indices (snd (attempts c f a l)) = a # [Suc a ..< Suc a + m]"
          by (simp add: eq attempt_indices_append ai ci i1)
        then have g1: "attempt_indices (snd (attempts c f a l)) = [a ..< a + Suc m]"
          by (simp add: upt_conv_Cons)
        have "delays (snd (attempts c f a l)) =
            (c_retryDelay c * (int a + 1)) # map (\<lambda>k. c_retryDelay c * (int k + 1)) [Suc a ..< Suc a + m - 1]"
          using True by (simp add: eq delays_append dl ev d1)
        then have g2: "delays (snd (attempts c f a l)) =
            map (\<lambda>k. c_retryDelay c * (int k + 1)) [a ..< a + Suc m - 1]"
          using mpos by (simp add: upt_conv_Cons)
        have g3: "int a + int (Suc m) \<le> max (int a) (c_retries c + 1)"
          using b1 True by simp
        show ?thesis using g1 g2 g3 le len by simp
      next
        case False
        then have "\<not> int (Suc a) \<le> c_retries c" by simp
        then have "attempts c f (Suc a) (Thrown e) = (Inl (Thrown e), [])"
          by (rule attempts_stop)
        then show ?thesis using eq ev False le ai dl by simp
      qed
    qed
  qed
qed

lemma attempts_reach:
  "k \<in> set (attempt_indices (snd (attempts c f a l))) \<Longrightarrow>
   \<exists>pre lk. attempts c f a l = (fst (attempts c f k lk), pre @ snd (attempts c f k lk))
      \<and> attempt_indices pre = [a ..< k] \<and> delays pre = map (\<lambda>j. c_retryDelay c * (int j + 1)) [a ..< k]
      \<and> a \<le> k \<and> int k \<le> c_retries c"
proof (induction n \<equiv> "nat (c_retries c + 1 - int a)" arbitrary: a l)
  case 0
  then have "\<not> int a \<le> c_retries c" by simp
  then have "attempts c f a l = (Inl l, [])" by (rule attempts_stop)
  then show ?case using "0.prems" by simp
next
  case (Suc n)
  then have le: "int a \<le> c_retries c" by simp
  show ?case
  proof (cases "k = a")
    case True
    have "attempts c f a l = (fst (attempts c f a l), [] @ snd (attempts c f a l))" by simp
    then show ?thesis using True le by fastforce
  next
    case False
    obtain r evs where tb: "try_block c f a = (r, evs)" by (cases "try_block c f a")
    have ai: "attempt_indices evs = [a]" and dl: "delays evs = []"
      using try_block_indices [of c f a] try_block_delays [of c f a] tb by simp_all
    show ?thesis
    proof (cases r)
      case (Inr d)
      then have "attempts c f a l = (Inr d, evs)" using le tb by (simp add: attempts_return)
      then show ?thesis using Suc.prems ai False by simp
    next
      case (Inl e)
      obtain t evs' where cb: "catch_block c a e = (t, evs')" by (cases "catch_block c a e")
      have ci: "attempt_indices evs' = []" using catch_block_indices [of c a e] cb by simp
      show ?thesis
      proof (cases t)
        case (Some th)
        then have "attempts c f a l = (Inl th, evs @ evs')"
          using le tb Inl cb attempts_throw by blast
        then show ?thesis using Suc.prems ai ci False by (simp add: attempt_indices_append)
      next
        case None
        have ev: "evs' = (if int a < c_retries c then [Delay (c_retryDelay c * (int a + 1))] else [])"
          using cb None catch_block_continue by blast
        have eq: "attempts c f a l =
            (fst (attempts c f (Suc a) (Thrown e)), evs @ evs' @ snd (attempts c f (Suc a) (Thrown e)))"
          using attempts_retry le tb Inl cb None by blast
        have mem: "k \<in> set (attempt_indices (snd (attempts c f (Suc a) (Thrown e))))"
          using Suc.prems False by (simp add: eq attempt_indices_append ai ci)
        have m: "n = nat (c_retries c + 1 - int (Suc a))" using Suc.hyps(2) by simp
        from Suc.hyps(1) [OF m mem] obtain pre lk where
          p1: "attempts c f (Suc a) (Thrown e) = (fst (attempts c f k lk), pre @ snd (attempts c f k lk))"
          and p2: "attempt_indices pre = [Suc a ..< k]"
          and p3: "delays pre = map (\<lambda>j. c_retryDelay c * (int j + 1)) [Suc a ..< k]"
          and p4: "Suc a \<le> k" and p5: "int k \<le> c_retries c"
          by blast
        have lt: "int a < c_retries c" using p4 p5 by simp
        have q1: "attempts c f a l = (fst (attempts c f k lk), (evs @ evs' @ pre) @ snd (attempts c f k lk))"
          using eq p1 by simp
        have q2: "attempt_indices (evs @ evs' @ pre) = [a ..< k]"
          using p4 by (simp add: attempt_indices_append ai ci p2 upt_conv_Cons)
        have q3: "delays (evs @ evs' @ pre) = map (\<lambda>j. c_retryDelay c * (int j + 1)) [a ..< k]"
          using p4 lt by (simp add: delays_append dl ev p3 upt_conv_Cons)
        show ?thesis using q1 q2 q3 p4 p5 by (intro exI [of _ "evs @ evs' @ pre"] exI [of _ lk]) simp
      qed
    qed
  qed
qed

lemma attempts_skip:
  "a \<le> k \<Longrightarrow> int k \<le> c_retries c \<Longrightarrow>
   (\<And>j. a \<le> j \<Longrightarrow> j < k \<Longrightarrow> \<exists>e. fst (try_block c f j) = Inl e \<and> fst (catch_block c j e) = None) \<Longrightarrow>
   k \<in> set (attempt_indices (snd (attempts c f a l)))"
proof (induction d \<equiv> "k - a" arbitrary: a l)
  case 0
  then have "a = k" by simp
  then show ?case using attempts_shape [of c f k l] "0.prems"(2)
    by (metis hd_in_set upt_eq_Cons_conv list.sel(1) neq_Nil_conv)
next
  case (Suc d)
  then have lt: "a < k" by simp
  then have le: "int a \<le> c_retries c" using Suc.prems(2) by simp
  from Suc.prems(3) [of a] lt obtain e where
    t1: "fst (try_block c f a) = Inl e" and c1: "fst (catch_block c a e) = None" by auto
  obtain evs where tb: "try_block c f a = (Inl e, evs)" using t1 by (cases "try_block c f a") simp
  obtain evs' where cb: "catch_block c a e = (None, evs')" using c1 by (cases "catch_block c a e") simp
  have eq: "attempts c f a l =
      (fst (attempts c f (Suc a) (Thrown e)), evs @ evs' @ snd (attempts c f (Suc a) (Thrown e)))"
    using attempts_retry le tb cb by blast
  have "k \<in> set (attempt_indices (snd (attempts c f (Suc a) (Thrown e))))"
  proof (rule Suc.hyps(1))
    show "d = k - Suc a" using Suc.hyps(2) by simp
    show "Suc a \<le> k" using lt by simp
    show "int k \<le> c_retries c" by (rule Suc.prems(2))
    show "\<And>j. Suc a \<le> j \<Longrightarrow> j < k \<Longrightarrow> \<exists>e. fst (try_block c f j) = Inl e \<and> fst (catch_block c j e) = None"
      using Suc.prems(3) by simp
  qed
  then show ?case by (simp add: eq attempt_indices_append)
qed

lemma attempts_step:
  "int a \<le> c_retries c \<Longrightarrow> attempts c f a l =
     (case try_block c f a of
           (Inr data, evs) \<Rightarrow> (Inr data, evs)
         | (Inl error, evs) \<Rightarrow>
             (case catch_block c a error of
                (Some t, evs') \<Rightarrow> (Inl t, evs @ evs')
              | (None, evs') \<Rightarrow>
                  (case attempts c f (Suc a) (Thrown error) of
                     (r, rest) \<Rightarrow> (r, evs @ evs' @ rest))))"
  by (subst attempts.simps) simp

lemmas run_eval = apiFetch_def make_config_def merge_headers_def attempts_stop attempts_step
  try_block_def catch_block_def parse_body_def read_body_def read_optional_def http_error_def
  throw_not_ok_def type_error_def res_text_def utf8_decode_def in_range_def byte_def
  replacement_def
  error_message_def js_or_def new_Error_def abort_error_def make_init_def is_client_status_def
  Let_def show_eval timeout_of_def retries_of_def retryDelay_of_def
  plain_opts_def json_response_def csv_response_def binary_response_def network_error_def

subsection \<open>What happens at an attempt that is made\<close>

lemma reach_return:
  assumes "k \<in> set (attempt_indices (snd (attempts c f a l)))"
    and "try_block c f k = (Inr d, evs)"
  shows "fst (attempts c f a l) = Inr d \<and> attempt_indices (snd (attempts c f a l)) = [a ..< Suc k]
     \<and> delays (snd (attempts c f a l)) = map (\<lambda>j. c_retryDelay c * (int j + 1)) [a ..< k]
     \<and> (\<exists>pre. snd (attempts c f a l) = pre @ evs)"
proof -
  from attempts_reach [OF assms(1)] obtain pre lk where
    p: "attempts c f a l = (fst (attempts c f k lk), pre @ snd (attempts c f k lk))"
    and i: "attempt_indices pre = [a ..< k]"
    and d: "delays pre = map (\<lambda>j. c_retryDelay c * (int j + 1)) [a ..< k]"
    and ak: "a \<le> k" and kr: "int k \<le> c_retries c" by blast
  have s: "attempts c f k lk = (Inr d, evs)" using kr assms(2) by (rule attempts_return)
  have ai: "attempt_indices evs = [k]" and dl: "delays evs = []"
    using try_block_indices [of c f k] try_block_delays [of c f k] assms(2) by simp_all
  show ?thesis using p i d ak s ai dl by (simp add: attempt_indices_append delays_append)
qed

lemma reach_throw:
  assumes "k \<in> set (attempt_indices (snd (attempts c f a l)))"
    and "try_block c f k = (Inl e, evs)"
    and "catch_block c k e = (Some t, evs')"
  shows "fst (attempts c f a l) = Inl t \<and> attempt_indices (snd (attempts c f a l)) = [a ..< Suc k]
     \<and> delays (snd (attempts c f a l)) = map (\<lambda>j. c_retryDelay c * (int j + 1)) [a ..< k]
     \<and> (\<exists>pre. snd (attempts c f a l) = pre @ evs)"
proof -
  from attempts_reach [OF assms(1)] obtain pre lk where
    p: "attempts c f a l = (fst (attempts c f k lk), pre @ snd (attempts c f k lk))"
    and i: "attempt_indices pre = [a ..< k]"
    and d: "delays pre = map (\<lambda>j. c_retryDelay c * (int j + 1)) [a ..< k]"
    and ak: "a \<le> k" and kr: "int k \<le> c_retries c" by blast
  have e': "evs' = []" using assms(3) by (rule catch_block_throw_delays)
  have s: "attempts c f k lk = (Inl t, evs @ evs')" using kr assms(2,3) by (rule attempts_throw)
  have ai: "attempt_indices evs = [k]" and dl: "delays evs = []"
    using try_block_indices [of c f k] try_block_delays [of c f k] assms(2) by simp_all
  show ?thesis using p i d ak s ai dl e' by (simp add: attempt_indices_append delays_append)
qed


lemma try_block_timeout:
  "f k = TimedOut \<Longrightarrow> try_block c f k =
     (Inl abort_error, [SetTimeout k (c_timeout c), Fetch (c_url c) (make_init c k), TimerFired k])"
  by (simp add: try_block_def)


lemma try_block_parse_error:
  "f k = Responded r \<Longrightarrow> read_body r = Inl parseError \<Longrightarrow> try_block c f k =
     (Inl (new_Error (''Failed to parse response: '' @ err_message parseError)),
      [SetTimeout k (c_timeout c), Fetch (c_url c) (make_init c k), ClearTimeout k])"
  by (simp add: try_block_def parse_body_def)

lemma try_block_http_error:
  "f k = Responded r \<Longrightarrow> read_body r = Inr d \<Longrightarrow> \<not> res_ok r \<Longrightarrow> try_block c f k =
     (Inl (throw_not_ok (c_url c) r d),
      [SetTimeout k (c_timeout c), Fetch (c_url c) (make_init c k), ClearTimeout k])"
  by (simp add: try_block_def parse_body_def)

lemma try_block_ok:
  "f k = Responded r \<Longrightarrow> read_body r = Inr d \<Longrightarrow> res_ok r \<Longrightarrow> try_block c f k =
     (Inr d, [SetTimeout k (c_timeout c), Fetch (c_url c) (make_init c k), ClearTimeout k])"
  by (simp add: try_block_def parse_body_def)

lemma catch_block_abort:
  "catch_block c k abort_error =
     (Some (Thrown (new_Error (''Request timeout after '' @ show_int (c_timeout c) @ ''ms''))), [])"
  by (simp add: catch_block_def abort_error_def)

lemma throw_not_ok_Some:
  "to_string (error_message r d) = Some m \<Longrightarrow> throw_not_ok u r d = http_error u r d m"
  by (simp add: throw_not_ok_def)

lemma throw_not_ok_None:
  "to_string (error_message r d) = None \<Longrightarrow> throw_not_ok u r d = type_error"
  by (simp add: throw_not_ok_def)

lemma catch_block_client:
  "400 \<le> res_status r \<Longrightarrow> res_status r < 500 \<Longrightarrow>
   catch_block c k (http_error u r d m) = (Some (Thrown (http_error u r d m)), [])"
  by (simp add: catch_block_def http_error_def is_client_status_def)

lemma catch_block_type_error: "fst (catch_block c k type_error) = None"
  by (simp add: catch_block_def type_error_def is_client_status_def)

lemma catch_block_parse_error:
  "fst (catch_block c k (new_Error m)) = None"
  by (simp add: catch_block_def new_Error_def is_client_status_def)

lemma starts_with_append: "starts_with (p @ b) p"
  by (induction p) simp_all

lemma js_includes_suffix: "js_includes (p @ b) p"
proof (cases "p @ b")
  case Nil
  then show ?thesis by simp
next
  case (Cons x xs)
  have "starts_with (x # xs) p" using starts_with_append [of p b] Cons by simp
  then show ?thesis using Cons by simp
qed

lemma js_includes_append: "js_includes (a @ p @ b) p"
proof (induction a)
  case Nil
  show ?case using js_includes_suffix [of p b] by simp
next
  case (Cons x xs)
  then show ?case by simp
qed

lemma config_simps:
  "c_timeout (make_config apiBase apiKey path opts) = timeout_of opts"
  "c_retries (make_config apiBase apiKey path opts) = retries_of opts"
  "c_retryDelay (make_config apiBase apiKey path opts) = retryDelay_of opts"
  "c_url (make_config apiBase apiKey path opts) = apiBase @ path"
  "c_headers (make_config apiBase apiKey path opts) = merge_headers apiKey (headers opts)"
  by (simp_all add: make_config_def)

lemma non_client_response_continues:
  assumes "f j = Responded r" and "\<not> res_ok r" and "\<not> (400 \<le> res_status r \<and> res_status r < 500)"
  shows "\<exists>e. fst (try_block c f j) = Inl e \<and> fst (catch_block c j e) = None"
proof (cases "read_body r")
  case (Inl pe)
  then show ?thesis using assms(1) by (simp add: try_block_parse_error catch_block_parse_error)
next
  case (Inr d)
  then have "fst (try_block c f j) = Inl (throw_not_ok (c_url c) r d)"
    using assms(1,2) by (simp add: try_block_http_error)
  moreover have "fst (catch_block c j (throw_not_ok (c_url c) r d)) = None"
  proof (cases "to_string (error_message r d)")
    case None
    then show ?thesis by (simp add: throw_not_ok_None catch_block_type_error)
  next
    case (Some m)
    then show ?thesis using assms(3)
      by (auto simp add: throw_not_ok_Some catch_block_def http_error_def is_client_status_def)
  qed
  ultimately show ?thesis by blast
qed


lemmas sample_eval = run_eval always_def fail_then_def tuned_opts_def header_opts_def
  response_with_def message_of_def

lemma run_parts:
  assumes "apiFetch apiBase apiKey fetch path opts = (res, tr)"
  shows "res = fst (attempts (make_config apiBase apiKey path opts) fetch 0 ThrownUndefined)"
    and "tr = snd (attempts (make_config apiBase apiKey path opts) fetch 0 ThrownUndefined)"
  using assms by (simp_all add: apiFetch_def)

subsection \<open>The requests and the abort timers of a call\<close>


lemma try_block_armed:
  "a \<notin> set ts \<Longrightarrow>
   armed_timers ts (snd (try_block c f a)) = ts @ (if network_failed (f a) then [a] else [])"
  by (cases "f a") (simp_all add: try_block_def Let_def split: sum.splits)

lemma catch_block_armed: "armed_timers ts (snd (catch_block c a e)) = ts"
  by (simp add: catch_block_def)

lemma attempts_armed:
  "\<forall>t \<in> set ts. t < a \<Longrightarrow>
   armed_timers ts (snd (attempts c f a l)) =
     ts @ filter (\<lambda>k. network_failed (f k)) (attempt_indices (snd (attempts c f a l)))"
proof (induction n \<equiv> "nat (c_retries c + 1 - int a)" arbitrary: a l ts)
  case 0
  then have "\<not> int a \<le> c_retries c" by simp
  then show ?case by (simp add: attempts_stop)
next
  case (Suc n)
  then have le: "int a \<le> c_retries c" by simp
  have fresh: "a \<notin> set ts" using Suc.prems by auto
  obtain r evs where tb: "try_block c f a = (r, evs)" by (cases "try_block c f a")
  have ai: "attempt_indices evs = [a]"
    using try_block_indices [of c f a] tb by simp
  have ar: "armed_timers ts evs = ts @ (if network_failed (f a) then [a] else [])"
    using try_block_armed [OF fresh, of c f] tb by simp
  show ?case
  proof (cases r)
    case (Inr d)
    then show ?thesis using le tb ai ar by (simp add: attempts_return)
  next
    case (Inl e)
    obtain t evs' where cb: "catch_block c a e = (t, evs')" by (cases "catch_block c a e")
    have ci: "attempt_indices evs' = []" using catch_block_indices [of c a e] cb by simp
    have ca: "\<And>us. armed_timers us evs' = us" using catch_block_armed [of _ c a e] cb by simp
    show ?thesis
    proof (cases t)
      case (Some th)
      then have "attempts c f a l = (Inl th, evs @ evs')"
        using le tb Inl cb attempts_throw by blast
      then show ?thesis using ai ar ci ca by (simp add: attempt_indices_append armed_timers_append)
    next
      case None
      have eq: "attempts c f a l =
          (fst (attempts c f (Suc a) (Thrown e)), evs @ evs' @ snd (attempts c f (Suc a) (Thrown e)))"
        using attempts_retry le tb Inl cb None by blast
      have m: "n = nat (c_retries c + 1 - int (Suc a))" using Suc.hyps(2) by simp
      have below: "\<forall>t \<in> set (ts @ (if network_failed (f a) then [a] else [])). t < Suc a"
        using Suc.prems by (auto simp: less_Suc_eq)
      show ?thesis using Suc.hyps(1) [OF m below, of "Thrown e"] ai ar ci ca
        by (simp add: eq attempt_indices_append armed_timers_append)
    qed
  qed
qed


lemma armed_timers_after_call:
  assumes "apiFetch apiBase apiKey fetch path opts = (res, tr)"
  shows "armed_timers [] tr = filter (\<lambda>k. network_failed (fetch k)) (attempt_indices tr)"
  using attempts_armed [of "[]" 0 "make_config apiBase apiKey path opts" fetch ThrownUndefined]
    run_parts [OF assms] by simp

lemma attempts_begin_with_try:
  "int k \<le> c_retries c \<Longrightarrow> \<exists>rest. snd (attempts c f k l) = snd (try_block c f k) @ rest"
  by (simp add: attempts_step split: prod.splits sum.splits option.splits)

lemma abort_timer_armed_before_fetch:
  assumes run: "apiFetch apiBase apiKey fetch path opts = (res, tr)"
    and made: "k \<in> set (attempt_indices tr)"
  shows "\<exists>pre init rest.
     tr = pre @ [SetTimeout k (timeout_of opts), Fetch (apiBase @ path) init] @ rest"
proof -
  define c where "c = make_config apiBase apiKey path opts"
  note rp = run_parts [OF run, folded c_def]
  have m: "k \<in> set (attempt_indices (snd (attempts c fetch 0 ThrownUndefined)))"
    using made rp by simp
  from attempts_reach [OF m] obtain pre lk where
    p: "snd (attempts c fetch 0 ThrownUndefined) = pre @ snd (attempts c fetch k lk)"
    and kr: "int k \<le> c_retries c" by auto
  from attempts_begin_with_try [OF kr] obtain rest where
    q: "snd (attempts c fetch k lk) = snd (try_block c fetch k) @ rest" by blast
  have "\<exists>tl. snd (try_block c fetch k) =
      [SetTimeout k (c_timeout c), Fetch (c_url c) (make_init c k)] @ tl"
    by (simp add: try_block_def Let_def split: fetch_outcome.splits sum.splits)
  then obtain tl where e: "snd (try_block c fetch k) =
      [SetTimeout k (c_timeout c), Fetch (c_url c) (make_init c k)] @ tl" by blast
  have "tr = pre @ [SetTimeout k (timeout_of opts), Fetch (apiBase @ path) (make_init c k)] @ (tl @ rest)"
    using rp p q e by (simp add: c_def config_simps)
  then show ?thesis by blast
qed

lemma abort_timer_cleared_on_response:
  assumes run: "apiFetch apiBase apiKey fetch path opts = (res, tr)"
    and made: "k \<in> set (attempt_indices tr)"
    and out: "fetch k = Responded r"
  shows "\<exists>pre init rest.
     tr = pre @ [SetTimeout k (timeout_of opts), Fetch (apiBase @ path) init, ClearTimeout k] @ rest"
proof -
  define c where "c = make_config apiBase apiKey path opts"
  note rp = run_parts [OF run, folded c_def]
  have m: "k \<in> set (attempt_indices (snd (attempts c fetch 0 ThrownUndefined)))"
    using made rp by simp
  from attempts_reach [OF m] obtain pre lk where
    p: "snd (attempts c fetch 0 ThrownUndefined) = pre @ snd (attempts c fetch k lk)"
    and kr: "int k \<le> c_retries c" by auto
  from attempts_begin_with_try [OF kr] obtain rest where
    q: "snd (attempts c fetch k lk) = snd (try_block c fetch k) @ rest" by blast
  have e: "snd (try_block c fetch k) =
      [SetTimeout k (c_timeout c), Fetch (c_url c) (make_init c k), ClearTimeout k]"
    using out by (simp add: try_block_def Let_def split: sum.splits)
  have "tr = pre @ [SetTimeout k (timeout_of opts), Fetch (apiBase @ path) (make_init c k), ClearTimeout k] @ rest"
    using rp p q e by (simp add: c_def config_simps)
  then show ?thesis by blast
qed

subsection \<open>The order of requests and waits\<close>

lemma schedule_append: "schedule (xs @ ys) = schedule xs @ schedule ys"
  by (induction xs rule: schedule.induct) simp_all

lemma try_block_schedule: "schedule (snd (try_block c f a)) = [Start a, Attempt a]"
  by (simp add: try_block_def make_init_def Let_def split: fetch_outcome.splits sum.splits)

lemma attempts_schedule:
  "schedule (snd (attempts c f a l)) =
     concat (map (\<lambda>k. [Start k, Attempt k, Wait (c_retryDelay c * (int k + 1))])
                 [a ..< a + length (attempt_indices (snd (attempts c f a l))) - 1])
     @ (if attempt_indices (snd (attempts c f a l)) = [] then []
        else [Start (a + length (attempt_indices (snd (attempts c f a l))) - 1),
              Attempt (a + length (attempt_indices (snd (attempts c f a l))) - 1)])"
proof (induction n \<equiv> "nat (c_retries c + 1 - int a)" arbitrary: a l)
  case 0
  then have "\<not> int a \<le> c_retries c" by simp
  then show ?case by (simp add: attempts_stop)
next
  case (Suc n)
  then have le: "int a \<le> c_retries c" by simp
  obtain r evs where tb: "try_block c f a = (r, evs)" by (cases "try_block c f a")
  have ai: "attempt_indices evs = [a]" and sc: "schedule evs = [Start a, Attempt a]"
    using try_block_indices [of c f a] try_block_schedule [of c f a] tb by simp_all
  show ?case
  proof (cases r)
    case (Inr d)
    then show ?thesis using le tb ai sc by (simp add: attempts_return)
  next
    case (Inl e)
    obtain t evs' where cb: "catch_block c a e = (t, evs')" by (cases "catch_block c a e")
    have ci: "attempt_indices evs' = []" using catch_block_indices [of c a e] cb by simp
    show ?thesis
    proof (cases t)
      case (Some th)
      then have "evs' = []" using cb catch_block_throw_delays by blast
      then show ?thesis using le tb Inl cb Some ai sc
        by (simp add: attempts_throw [OF le _ _])
    next
      case None
      have ev: "evs' = (if int a < c_retries c then [Delay (c_retryDelay c * (int a + 1))] else [])"
        using cb None catch_block_continue by blast
      have eq: "attempts c f a l =
          (fst (attempts c f (Suc a) (Thrown e)), evs @ evs' @ snd (attempts c f (Suc a) (Thrown e)))"
        using attempts_retry le tb Inl cb None by blast
      have m: "n = nat (c_retries c + 1 - int (Suc a))" using Suc.hyps(2) by simp
      note IH = Suc.hyps(1) [OF m, of "Thrown e"]
      show ?thesis
      proof (cases "int a < c_retries c")
        case True
        define rest where "rest = snd (attempts c f (Suc a) (Thrown e))"
        define m where "m = length (attempt_indices rest)"
        have ne: "attempt_indices rest \<noteq> []"
          using attempts_shape [of c f "Suc a" "Thrown e"] True by (simp add: rest_def)
        then have mpos: "0 < m" by (simp add: m_def)
        have s1: "schedule rest =
            concat (map (\<lambda>k. [Start k, Attempt k, Wait (c_retryDelay c * (int k + 1))]) [Suc a ..< Suc a + m - 1])
            @ [Start (Suc a + m - 1), Attempt (Suc a + m - 1)]"
          using IH ne by (simp add: rest_def m_def)
        have len: "attempt_indices (snd (attempts c f a l)) = a # attempt_indices rest"
          by (simp add: eq attempt_indices_append ai ci rest_def)
        have up: "[a ..< a + Suc m - 1] = a # [Suc a ..< Suc a + m - 1]"
          using mpos by (simp add: upt_conv_Cons)
        have "schedule (snd (attempts c f a l)) =
            Start a # Attempt a # Wait (c_retryDelay c * (int a + 1)) # schedule rest"
          using True by (simp add: eq schedule_append sc ev rest_def)
        then show ?thesis using s1 len mpos up by (simp add: m_def)
      next
        case False
        then have "\<not> int (Suc a) \<le> c_retries c" by simp
        then have "attempts c f (Suc a) (Thrown e) = (Inl (Thrown e), [])"
          by (rule attempts_stop)
        then show ?thesis using eq ev False le ai sc by simp
      qed
    qed
  qed
qed

subsection \<open>Decimal numerals and the decoding of text\<close>

lemma digit_value_digit_char: "d < 10 \<Longrightarrow> digit_value (digit_char d) = d"
  by (simp add: digit_char_def digit_value_def)

lemma decimal_value_snoc: "decimal_value (s @ [c]) = 10 * decimal_value s + digit_value c"
  by (simp add: decimal_value_def)

lemma decimal_value_show_nat: "decimal_value (show_nat n) = n"
proof (induction n rule: show_nat.induct)
  case (1 n)
  show ?case
  proof (cases "n < 10")
    case True
    then show ?thesis
      by (simp add: show_nat_small decimal_value_def digit_value_digit_char)
  next
    case False
    have m: "n mod 10 < 10" by simp
    show ?thesis using False "1.IH" [OF False] digit_value_digit_char [OF m]
      by (simp add: show_nat_big decimal_value_snoc)
  qed
qed

lemma utf8_scan_ascii: "\<forall>c \<in> set bs. byte c < 128 \<Longrightarrow> utf8_scan bs = bs"
  by (induction bs) (simp_all add: in_range_def)

lemma utf8_decode_ascii: "\<forall>c \<in> set bs. byte c < 128 \<Longrightarrow> utf8_decode bs = bs"
proof -
  assume a: "\<forall>c \<in> set bs. byte c < 128"
  have "take 3 bs \<noteq> [CHR 0xEF, CHR 0xBB, CHR 0xBF]"
  proof
    assume t: "take 3 bs = [CHR 0xEF, CHR 0xBB, CHR 0xBF]"
    then have "CHR 0xEF \<in> set (take 3 bs)" by simp
    then have "CHR 0xEF \<in> set bs" by (rule in_set_takeD)
    then have "byte (CHR 0xEF) < 128" using a by blast
    then show False by (simp add: byte_def)
  qed
  then show ?thesis using a by (simp add: utf8_decode_def utf8_scan_ascii)
qed

section \<open>The claims\<close>

text \<open>
  Claim C1. Write \<open>maxRetries\<close> for the caller's \<open>retries\<close> (0 when it is absent) and
  \<open>delay\<close> for the caller's \<open>retryDelay\<close> (1000 when it is absent). In every call the
  attempts that reach \<open>fetch\<close> carry the indices 0 to \<open>n - 1\<close> in this order, where \<open>n\<close>
  is at most \<open>maxRetries + 1\<close> (and 0 when \<open>maxRetries\<close> is negative). With
  \<open>maxRetries = 0\<close> there is exactly one attempt, whatever its outcome. Attempts and
  waits alternate: attempt 0 (its timer armed, then its request), a wait of \<open>delay * 1\<close>,
  attempt 1, a wait of \<open>delay * 2\<close>, and so on up to attempt \<open>n - 1\<close>; so the wait before
  the retried attempt \<open>k + 1\<close> is \<open>delay * (k + 1)\<close>, it is over before that attempt
  starts, and nothing is waited for after the last attempt. If the first \<open>N\<close>
  attempts are answered with status 500 (not ok), attempt \<open>N\<close> is answered with an ok
  response whose body decodes to \<open>payload\<close>, and \<open>N\<close> is at most \<open>maxRetries\<close>, then the
  call returns \<open>payload\<close> after exactly \<open>N + 1\<close> attempts, with the waits \<open>delay * 1\<close> to
  \<open>delay * N\<close> between them.
\<close>

theorem retry_schedule:
  assumes run: "apiFetch apiBase apiKey fetch path opts = (res, tr)"
    and r: "maxRetries = (case retries opts of None \<Rightarrow> 0 | Some v \<Rightarrow> v)"
    and d: "delay = (case retryDelay opts of None \<Rightarrow> 1000 | Some v \<Rightarrow> v)"
    and n: "n = length (attempt_indices tr)"
  shows "attempt_indices tr = [0 ..< n]
     \<and> int n \<le> max 0 (maxRetries + 1)
     \<and> (maxRetries = 0 \<longrightarrow> n = 1)
     \<and> schedule tr =
          concat (map (\<lambda>k. [Start k, Attempt k, Wait (delay * (int k + 1))]) [0 ..< n - 1])
          @ (if n = 0 then [] else [Start (n - 1), Attempt (n - 1)])
     \<and> delays tr = map (\<lambda>k. delay * (int k + 1)) [0 ..< n - 1]
     \<and> (int N \<le> maxRetries
          \<and> (\<forall>k<N. \<exists>r. fetch k = Responded r \<and> \<not> res_ok r \<and> res_status r = 500)
          \<and> fetch N = Responded s \<and> res_ok s \<and> read_body s = Inr payload
        \<longrightarrow> res = Inr payload \<and> n = N + 1
            \<and> schedule tr =
                 concat (map (\<lambda>k. [Start k, Attempt k, Wait (delay * (int k + 1))]) [0 ..< N]) @ [Start N, Attempt N])"
proof -
  define c where "c = make_config apiBase apiKey path opts"
  have tr: "tr = snd (attempts c fetch 0 ThrownUndefined)"
    and res: "res = fst (attempts c fetch 0 ThrownUndefined)"
    using run by (simp_all add: apiFetch_def c_def)
  have cr: "c_retries c = maxRetries" and cd: "c_retryDelay c = delay"
    by (simp_all add: c_def config_simps retries_of_def retryDelay_of_def r d)
  note sh = attempts_shape [of c fetch 0 ThrownUndefined, folded tr, unfolded cr cd, folded n]
  have g1: "attempt_indices tr = [0 ..< n]" using sh by simp
  have g2: "int n \<le> max 0 (maxRetries + 1)" using sh by simp
  have g3: "maxRetries = 0 \<longrightarrow> n = 1"
  proof
    assume z: "maxRetries = 0"
    have le: "int 0 \<le> maxRetries" using z by simp
    have "attempt_indices tr \<noteq> []"
      using attempts_shape [of c fetch 0 ThrownUndefined, folded tr, unfolded cr] le by simp
    then have "n \<noteq> 0" unfolding n by simp
    moreover have "int n \<le> 1" using g2 z by simp
    ultimately show "n = 1" by arith
  qed
  have g4: "schedule tr =
          concat (map (\<lambda>k. [Start k, Attempt k, Wait (delay * (int k + 1))]) [0 ..< n - 1])
          @ (if n = 0 then [] else [Start (n - 1), Attempt (n - 1)])"
    using attempts_schedule [of c fetch 0 ThrownUndefined, folded tr, unfolded cd, folded n]
    by (simp add: n)
  have g5: "delays tr = map (\<lambda>k. delay * (int k + 1)) [0 ..< n - 1]"
    using sh by simp
  have g6: "int N \<le> maxRetries
          \<and> (\<forall>k<N. \<exists>r. fetch k = Responded r \<and> \<not> res_ok r \<and> res_status r = 500)
          \<and> fetch N = Responded s \<and> res_ok s \<and> read_body s = Inr payload
        \<longrightarrow> res = Inr payload \<and> n = N + 1
            \<and> schedule tr =
                 concat (map (\<lambda>k. [Start k, Attempt k, Wait (delay * (int k + 1))]) [0 ..< N]) @ [Start N, Attempt N]"
  proof
    assume h: "int N \<le> maxRetries
          \<and> (\<forall>k<N. \<exists>r. fetch k = Responded r \<and> \<not> res_ok r \<and> res_status r = 500)
          \<and> fetch N = Responded s \<and> res_ok s \<and> read_body s = Inr payload"
    have "N \<in> set (attempt_indices (snd (attempts c fetch 0 ThrownUndefined)))"
    proof (rule attempts_skip)
      show "0 \<le> N" by simp
      show "int N \<le> c_retries c" using h cr by simp
      fix j assume "j < N"
      then obtain r where "fetch j = Responded r" "\<not> res_ok r" "res_status r = 500"
        using h by blast
      then show "\<exists>e. fst (try_block c fetch j) = Inl e \<and> fst (catch_block c j e) = None"
        using non_client_response_continues [of fetch j r c] by simp
    qed
    moreover have "try_block c fetch N =
        (Inr payload, [SetTimeout N (c_timeout c), Fetch (c_url c) (make_init c N), ClearTimeout N])"
      using h by (simp add: try_block_ok)
    ultimately have "res = Inr payload \<and> attempt_indices tr = [0 ..< Suc N]"
      using reach_return [of N c fetch 0 ThrownUndefined payload] tr res by simp
    then have a: "res = Inr payload" and b: "n = N + 1" by (simp_all add: n)
    show "res = Inr payload \<and> n = N + 1
            \<and> schedule tr =
                 concat (map (\<lambda>k. [Start k, Attempt k, Wait (delay * (int k + 1))]) [0 ..< N]) @ [Start N, Attempt N]"
      using a b g4 by simp
  qed
  show ?thesis using g1 g2 g3 g4 g5 g6 by blast
qed

theorem retry_schedule_witness:
  "fst (apiFetch ''/api'' ''key''
          (fail_then 2 (Responded (json_response False 500 ''Internal Server Error'' (Inr JNull)))
                       (Responded (json_response True 200 ''OK'' (Inr (JNum 7)))))
          ''/logs'' (tuned_opts 5000 3 200)) = Inr (JNum 7)
   \<and> schedule (snd (apiFetch ''/api'' ''key''
          (fail_then 2 (Responded (json_response False 500 ''Internal Server Error'' (Inr JNull)))
                       (Responded (json_response True 200 ''OK'' (Inr (JNum 7)))))
          ''/logs'' (tuned_opts 5000 3 200)))
       = [Start 0, Attempt 0, Wait 200, Start 1, Attempt 1, Wait 400, Start 2, Attempt 2]
   \<and> schedule (snd (apiFetch ''/api'' ''key'' (always (Failed network_error)) ''/logs''
          (tuned_opts 5000 2 70)))
       = [Start 0, Attempt 0, Wait 70, Start 1, Attempt 1, Wait 140, Start 2, Attempt 2]
   \<and> schedule (snd (apiFetch ''/api'' ''key'' (always (Failed network_error)) ''/logs''
          (plain_opts (Some 1))))
       = [Start 0, Attempt 0, Wait 1000, Start 1, Attempt 1]
   \<and> schedule (snd (apiFetch ''/api'' ''key'' (always (Failed network_error)) ''/logs''
          (tuned_opts 5000 0 200)))
       = [Start 0, Attempt 0]"
proof -
  let ?s = "json_response True 200 ''OK'' (Inr (JNum 7))"
  let ?f = "fail_then 2 (Responded (json_response False 500 ''Internal Server Error'' (Inr JNull)))
                        (Responded ?s)"
  let ?g = "always (Failed network_error)"
  let ?X = "apiFetch ''/api'' ''key'' ?f ''/logs'' (tuned_opts 5000 3 200)"
  let ?Y = "apiFetch ''/api'' ''key'' ?g ''/logs'' (tuned_opts 5000 2 70)"
  let ?Z = "apiFetch ''/api'' ''key'' ?g ''/logs'' (plain_opts (Some 1))"
  let ?W = "apiFetch ''/api'' ''key'' ?g ''/logs'' (tuned_opts 5000 0 200)"
  have runX: "?X = (fst ?X, snd ?X)" and runY: "?Y = (fst ?Y, snd ?Y)"
    and runZ: "?Z = (fst ?Z, snd ?Z)" and runW: "?W = (fst ?W, snd ?W)" by simp_all
  have rX: "3 = (case retries (tuned_opts 5000 3 200) of None \<Rightarrow> 0 | Some v \<Rightarrow> v)"
    and dX: "200 = (case retryDelay (tuned_opts 5000 3 200) of None \<Rightarrow> 1000 | Some v \<Rightarrow> v)"
    and rY: "2 = (case retries (tuned_opts 5000 2 70) of None \<Rightarrow> 0 | Some v \<Rightarrow> v)"
    and dY: "70 = (case retryDelay (tuned_opts 5000 2 70) of None \<Rightarrow> 1000 | Some v \<Rightarrow> v)"
    and rZ: "1 = (case retries (plain_opts (Some 1)) of None \<Rightarrow> 0 | Some v \<Rightarrow> v)"
    and dZ: "1000 = (case retryDelay (plain_opts (Some 1)) of None \<Rightarrow> 1000 | Some v \<Rightarrow> v)"
    and rW: "0 = (case retries (tuned_opts 5000 0 200) of None \<Rightarrow> 0 | Some v \<Rightarrow> v)"
    and dW: "200 = (case retryDelay (tuned_opts 5000 0 200) of None \<Rightarrow> 1000 | Some v \<Rightarrow> v)"
    by (simp_all add: tuned_opts_def plain_opts_def)
  have hyp: "int 2 \<le> 3
      \<and> (\<forall>k<2. \<exists>r. ?f k = Responded r \<and> \<not> res_ok r \<and> res_status r = 500)
      \<and> ?f 2 = Responded ?s \<and> res_ok ?s \<and> read_body ?s = Inr (JNum 7)"
    by (simp add: json_response_def read_body_def fail_then_def)
  have nY: "length (attempt_indices (snd ?Y)) = 3" and nZ: "length (attempt_indices (snd ?Z)) = 2"
    by (simp_all add: sample_eval)
  have up: "[0 ..< 3] = [0, 1, 2]" "[0 ..< 2] = [0, Suc 0]" "[0 ..< 1] = [0]"
    by (simp_all add: upt_rec)
  note X = retry_schedule [OF runX rX dX refl, of 2 ?s "JNum 7"]
  note Y = retry_schedule [OF runY rY dY refl, of 2 ?s "JNum 7"]
  note Z = retry_schedule [OF runZ rZ dZ refl, of 2 ?s "JNum 7"]
  note W = retry_schedule [OF runW rW dW refl, of 2 ?s "JNum 7"]
  have x: "fst ?X = Inr (JNum 7)
      \<and> schedule (snd ?X) = concat (map (\<lambda>k. [Start k, Attempt k, Wait (200 * (int k + 1))]) [0 ..< 2]) @ [Start 2, Attempt 2]"
    using X hyp by blast
  have y: "schedule (snd ?Y) =
          concat (map (\<lambda>k. [Start k, Attempt k, Wait (70 * (int k + 1))]) [0 ..< 3 - 1])
          @ (if (3::nat) = 0 then [] else [Start (3 - 1), Attempt (3 - 1)])"
    using Y [unfolded nY] by blast
  have z: "schedule (snd ?Z) =
          concat (map (\<lambda>k. [Start k, Attempt k, Wait (1000 * (int k + 1))]) [0 ..< 2 - 1])
          @ (if (2::nat) = 0 then [] else [Start (2 - 1), Attempt (2 - 1)])"
    using Z [unfolded nZ] by blast
  have w1: "length (attempt_indices (snd ?W)) = 1" using W by blast
  have w: "schedule (snd ?W) =
          concat (map (\<lambda>k. [Start k, Attempt k, Wait (200 * (int k + 1))]) [0 ..< 1 - 1])
          @ (if (1::nat) = 0 then [] else [Start (1 - 1), Attempt (1 - 1)])"
    using W [unfolded w1] by blast
  show ?thesis using x y z w by (simp add: up)
qed

text \<open>
  Claim C2. Write \<open>ms\<close> for the caller's \<open>timeout\<close> (30000 when it is absent), a safe
  integer. If an attempt that the call makes is cancelled by its own abort timer, the call
  ends there, whatever \<open>retries\<close> is: it throws a new error whose message is the words
  \<open>Request timeout after\<close>, a space, the decimal numeral of that timeout, and the two
  letters of the unit (so the message contains the configured timeout, and the numeral read
  back is the timeout); the attempts made are those up to and including this one, and the
  firing of the timer is the last event of the call (no wait, no further request).
\<close>

theorem timeout_not_retried:
  assumes run: "apiFetch apiBase apiKey fetch path opts = (res, tr)"
    and made: "k \<in> set (attempt_indices tr)"
    and out: "fetch k = TimedOut"
    and ms: "ms = (case timeout opts of None \<Rightarrow> 30000 | Some v \<Rightarrow> v)"
    and safe: "safe_integer ms"
  shows "res = Inl (Thrown \<lparr>err_name = ''Error'',
                            err_message = ''Request timeout after '' @ show_int ms @ ''ms'',
                            err_status = None, err_statusText = None, err_data = JUndefined,
                            err_url = None\<rparr>)
     \<and> (0 \<le> ms \<longrightarrow> int (decimal_value (show_int ms)) = ms)
     \<and> js_includes (''Request timeout after '' @ show_int ms @ ''ms'') (show_int ms)
     \<and> attempt_indices tr = [0 ..< Suc k]
     \<and> last tr = TimerFired k"
proof -
  define c where "c = make_config apiBase apiKey path opts"
  note rp = run_parts [OF run, folded c_def]
  have m: "k \<in> set (attempt_indices (snd (attempts c fetch 0 ThrownUndefined)))"
    using made rp by simp
  have tb: "try_block c fetch k =
      (Inl abort_error, [SetTimeout k (c_timeout c), Fetch (c_url c) (make_init c k), TimerFired k])"
    using out by (rule try_block_timeout)
  have cb: "catch_block c k abort_error =
     (Some (Thrown (new_Error (''Request timeout after '' @ show_int (c_timeout c) @ ''ms''))), [])"
    by (rule catch_block_abort)
  have ct: "c_timeout c = ms" by (simp add: c_def config_simps timeout_of_def ms)
  from reach_throw [OF m tb cb] obtain pre where
    r1: "res = Inl (Thrown (new_Error (''Request timeout after '' @ show_int ms @ ''ms'')))"
    and r2: "attempt_indices tr = [0 ..< Suc k]"
    and r3: "tr = pre @ [SetTimeout k (c_timeout c), Fetch (c_url c) (make_init c k), TimerFired k]"
    using rp ct by auto
  have r4: "last tr = TimerFired k" using r3 by simp
  have r5: "js_includes (''Request timeout after '' @ show_int ms @ ''ms'') (show_int ms)"
    by (rule js_includes_append)
  have r6: "0 \<le> ms \<longrightarrow> int (decimal_value (show_int ms)) = ms"
    by (simp add: show_int_def decimal_value_show_nat)
  show ?thesis using r1 r2 r4 r5 r6 by (simp add: new_Error_def)
qed

theorem timeout_not_retried_witness:
  "fst (apiFetch ''/api'' ''key'' (always TimedOut) ''/logs'' (tuned_opts 5000 3 200))
     = Inl (Thrown \<lparr>err_name = ''Error'', err_message = ''Request timeout after 5000ms'',
                    err_status = None, err_statusText = None, err_data = JUndefined,
                    err_url = None\<rparr>)
   \<and> decimal_value ''5000'' = 5000
   \<and> schedule (snd (apiFetch ''/api'' ''key'' (always TimedOut) ''/logs'' (tuned_opts 5000 3 200)))
       = [Start 0, Attempt 0]
   \<and> fst (apiFetch ''/api'' ''key'' (fail_then 1 (Failed network_error) TimedOut) ''/logs''
            (plain_opts (Some 3)))
     = Inl (Thrown \<lparr>err_name = ''Error'', err_message = ''Request timeout after 30000ms'',
                    err_status = None, err_statusText = None, err_data = JUndefined,
                    err_url = None\<rparr>)
   \<and> attempt_indices (snd (apiFetch ''/api'' ''key'' (fail_then 1 (Failed network_error) TimedOut)
            ''/logs'' (plain_opts (Some 3)))) = [0, 1]"
proof -
  let ?X = "apiFetch ''/api'' ''key'' (always TimedOut) ''/logs'' (tuned_opts 5000 3 200)"
  let ?Y = "apiFetch ''/api'' ''key'' (fail_then 1 (Failed network_error) TimedOut) ''/logs''
              (plain_opts (Some 3))"
  have runX: "?X = (fst ?X, snd ?X)" and runY: "?Y = (fst ?Y, snd ?Y)" by simp_all
  have madeX: "0 \<in> set (attempt_indices (snd ?X))" and madeY: "1 \<in> set (attempt_indices (snd ?Y))"
    by (simp_all add: sample_eval)
  have outX: "always TimedOut 0 = TimedOut"
    and outY: "fail_then 1 (Failed network_error) TimedOut 1 = TimedOut"
    by (simp_all add: always_def fail_then_def)
  have msX: "5000 = (case timeout (tuned_opts 5000 3 200) of None \<Rightarrow> 30000 | Some v \<Rightarrow> v)"
    and msY: "30000 = (case timeout (plain_opts (Some 3)) of None \<Rightarrow> 30000 | Some v \<Rightarrow> v)"
    by (simp_all add: tuned_opts_def plain_opts_def)
  have safe: "safe_integer 5000" "safe_integer 30000" by (simp_all add: safe_integer_def)
  have t: "show_int 5000 = ''5000''" "show_int 30000 = ''30000''" by (simp_all add: show_eval)
  have sX: "schedule (snd ?X) = [Start 0, Attempt 0]" by (simp add: sample_eval)
  have up: "[0 ..< 2] = [0, Suc 0]" by (simp add: upt_rec)
  note X = timeout_not_retried [OF runX madeX outX msX safe(1), unfolded t]
  note Y = timeout_not_retried [OF runY madeY outY msY safe(2), unfolded t]
  have x1: "fst ?X = Inl (Thrown \<lparr>err_name = ''Error'', err_message = ''Request timeout after 5000ms'',
                    err_status = None, err_statusText = None, err_data = JUndefined,
                    err_url = None\<rparr>)"
    using X [THEN conjunct1] by simp
  have x2: "int (decimal_value ''5000'') = 5000" using X by simp
  have y1: "fst ?Y = Inl (Thrown \<lparr>err_name = ''Error'', err_message = ''Request timeout after 30000ms'',
                    err_status = None, err_statusText = None, err_data = JUndefined,
                    err_url = None\<rparr>)"
    using Y [THEN conjunct1] by simp
  have y2: "attempt_indices (snd ?Y) = [0 ..< Suc 1]" using Y by simp
  show ?thesis using x1 x2 sX y1 y2 by (simp add: up)
qed









text \<open>
  Claim C6, as amended. If an attempt that the call makes receives a response that is not
  ok and whose body decodes to \<open>d\<close>, let \<open>chosen\<close> be the first truthy value among the
  \<open>message\<close> property of \<open>d\<close>, the \<open>error\<close> property of \<open>d\<close>, \<open>d\<close> itself, the status text,
  and the string \<open>HTTP <status>\<close>. If \<open>chosen\<close> has a string form \<open>m\<close> (its numbers and the
  status being safe integers), the attempt throws an error with message \<open>m\<close> that carries
  the status code, the status text, \<open>d\<close> and the resolved URL. The string form of a string
  is the string itself, of a number its decimal numeral, of \<open>true\<close> the word, of a plain
  object \<open>[object Object]\<close>, of an array its elements' forms joined by commas, of a blob or
  buffer its tag. For a response with status 422, content type \<open>application/json\<close> and
  body \<open>{"message": "bad input"}\<close> the call throws this error and its message is
  \<open>bad input\<close>. Nothing is said here of a response whose body does not decode, or whose
  chosen value has no string form.
\<close>

theorem http_error_message_priority:
  assumes run: "apiFetch apiBase apiKey fetch path opts = (res, tr)"
    and made: "k \<in> set (attempt_indices tr)"
    and out: "fetch k = Responded r"
    and nok: "\<not> res_ok r"
    and body: "read_body r = Inr d"
    and chosen: "chosen =
        (if truthy (opt_prop d ''message'') then opt_prop d ''message''
         else if truthy (opt_prop d ''error'') then opt_prop d ''error''
         else if truthy d then d
         else if res_statusText r \<noteq> [] then JStr (res_statusText r)
         else JStr (''HTTP '' @ show_int (res_status r)))"
    and conv: "to_string chosen = Some m"
    and nums: "safe_numbers chosen" "safe_integer (res_status r)"
  shows "fst (try_block (make_config apiBase apiKey path opts) fetch k)
           = Inl \<lparr>err_name = ''Error'', err_message = m,
                  err_status = Some (res_status r), err_statusText = Some (res_statusText r),
                  err_data = d, err_url = Some (apiBase @ path)\<rparr>
     \<and> (chosen = JStr s \<longrightarrow> m = s)
     \<and> (chosen = JNum i \<longrightarrow> m = show_int i)
     \<and> (chosen = JBool b \<longrightarrow> m = ''true'')
     \<and> (chosen = JObj kvs \<longrightarrow> m = ''[object Object]'')
     \<and> (chosen = JArr vs
          \<and> those (map (\<lambda>v. if v = JUndefined \<or> v = JNull then Some [] else to_string v) vs) = Some parts
        \<longrightarrow> m = join_comma parts)
     \<and> (chosen = JBlob bs \<longrightarrow> m = ''[object Blob]'')
     \<and> (chosen = JArrayBuffer bs \<longrightarrow> m = ''[object ArrayBuffer]'')
     \<and> (res_status r = 422 \<and> res_content_type r = Some ''application/json''
          \<and> res_json r = Inr (JObj [(''message'', JStr ''bad input'')])
        \<longrightarrow> m = ''bad input''
            \<and> res = Inl (Thrown \<lparr>err_name = ''Error'', err_message = ''bad input'',
                                   err_status = Some 422,
                                   err_statusText = Some (res_statusText r),
                                   err_data = JObj [(''message'', JStr ''bad input'')],
                                   err_url = Some (apiBase @ path)\<rparr>))"
proof -
  define c where "c = make_config apiBase apiKey path opts"
  note rp = run_parts [OF run, folded c_def]
  have cu: "c_url c = apiBase @ path" by (simp add: c_def config_simps)
  have m: "k \<in> set (attempt_indices (snd (attempts c fetch 0 ThrownUndefined)))"
    using made rp by simp
  have em: "error_message r d = chosen"
    by (simp add: chosen error_message_def js_or_def)
  have th: "throw_not_ok (c_url c) r d = http_error (c_url c) r d m"
    using conv em by (simp add: throw_not_ok_Some)
  have tb: "try_block c fetch k = (Inl (http_error (c_url c) r d m),
      [SetTimeout k (c_timeout c), Fetch (c_url c) (make_init c k), ClearTimeout k])"
    using try_block_http_error [of fetch k r d c] out body nok th by simp
  have g1: "fst (try_block c fetch k)
           = Inl \<lparr>err_name = ''Error'', err_message = m,
                  err_status = Some (res_status r), err_statusText = Some (res_statusText r),
                  err_data = d, err_url = Some (apiBase @ path)\<rparr>"
    using tb cu by (simp add: http_error_def)
  have g2: "chosen = JStr s \<longrightarrow> m = s" using conv by auto
  have g3: "chosen = JNum i \<longrightarrow> m = show_int i" using conv by auto
  have tr: "truthy chosen"
    by (simp add: chosen)
  have g4: "chosen = JBool b \<longrightarrow> m = ''true''" using conv tr by auto
  have g5: "chosen = JObj kvs \<longrightarrow> m = ''[object Object]''"
    using conv by (auto split: if_splits)
  have g6: "chosen = JArr vs
          \<and> those (map (\<lambda>v. if v = JUndefined \<or> v = JNull then Some [] else to_string v) vs) = Some parts
        \<longrightarrow> m = join_comma parts"
    using conv by auto
  have g7: "chosen = JBlob bs \<longrightarrow> m = ''[object Blob]''" using conv by auto
  have g8: "chosen = JArrayBuffer bs \<longrightarrow> m = ''[object ArrayBuffer]''" using conv by auto
  have g9: "res_status r = 422 \<and> res_content_type r = Some ''application/json''
          \<and> res_json r = Inr (JObj [(''message'', JStr ''bad input'')])
        \<longrightarrow> m = ''bad input''
            \<and> res = Inl (Thrown \<lparr>err_name = ''Error'', err_message = ''bad input'',
                                   err_status = Some 422,
                                   err_statusText = Some (res_statusText r),
                                   err_data = JObj [(''message'', JStr ''bad input'')],
                                   err_url = Some (apiBase @ path)\<rparr>)"
  proof
    assume h: "res_status r = 422 \<and> res_content_type r = Some ''application/json''
          \<and> res_json r = Inr (JObj [(''message'', JStr ''bad input'')])"
    then have "read_body r = Inr (JObj [(''message'', JStr ''bad input'')])"
      by (simp add: read_body_def)
    then have d: "d = JObj [(''message'', JStr ''bad input'')]" using body by simp
    have ch: "chosen = JStr ''bad input''" by (simp add: chosen d)
    have mm: "m = ''bad input''" using conv ch by simp
    have cb: "catch_block c k (http_error (c_url c) r d m) = (Some (Thrown (http_error (c_url c) r d m)), [])"
      using h catch_block_client [of r c k "c_url c" d m] by simp
    have "res = Inl (Thrown (http_error (c_url c) r d m))" using reach_throw [OF m tb cb] rp by simp
    then show "m = ''bad input''
            \<and> res = Inl (Thrown \<lparr>err_name = ''Error'', err_message = ''bad input'',
                                   err_status = Some 422,
                                   err_statusText = Some (res_statusText r),
                                   err_data = JObj [(''message'', JStr ''bad input'')],
                                   err_url = Some (apiBase @ path)\<rparr>)"
      using mm d h cu by (simp add: http_error_def)
  qed
  show ?thesis using g1 g2 g3 g4 g5 g6 g7 g8 g9 unfolding c_def by blast
qed

theorem http_error_message_priority_witness:
  "fst (apiFetch ''/api'' ''key''
          (always (Responded (json_response False 422 ''Unprocessable Entity''
             (Inr (JObj [(''message'', JStr ''bad input'')])))))
          ''/logs'' (plain_opts (Some 2)))
     = Inl (Thrown \<lparr>err_name = ''Error'', err_message = ''bad input'', err_status = Some 422,
                    err_statusText = Some ''Unprocessable Entity'',
                    err_data = JObj [(''message'', JStr ''bad input'')],
                    err_url = Some ''/api/logs''\<rparr>)
   \<and> message_of (fst (apiFetch ''/api'' ''key''
          (always (Responded (json_response False 500 ''Internal Server Error''
             (Inr (JObj [(''message'', JStr []), (''error'', JStr ''db down'')])))))
          ''/logs'' (plain_opts None))) = ''db down''
   \<and> message_of (fst (apiFetch ''/api'' ''key''
          (always (Responded (json_response False 500 ''Internal Server Error''
             (Inr (JObj [(''code'', JNum 7)])))))
          ''/logs'' (plain_opts None))) = ''[object Object]''
   \<and> message_of (fst (apiFetch ''/api'' ''key''
          (always (Responded (json_response False 503 ''Service Unavailable'' (Inr (JNum 42)))))
          ''/logs'' (plain_opts None))) = ''42''
   \<and> message_of (fst (apiFetch ''/api'' ''key''
          (always (Responded (json_response False 500 ''Internal Server Error''
             (Inr (JArr [JNum 1, JNull, JStr ''a''])))))
          ''/logs'' (plain_opts None))) = ''1,,a''
   \<and> message_of (fst (apiFetch ''/api'' ''key''
          (always (Responded (json_response False 502 ''Bad Gateway'' (Inr JNull))))
          ''/logs'' (plain_opts None))) = ''Bad Gateway''
   \<and> message_of (fst (apiFetch ''/api'' ''key''
          (always (Responded (json_response False 500 [] (Inr JNull))))
          ''/logs'' (plain_opts None))) = ''HTTP 500''"
proof -
  let ?d = "JObj [(''message'', JStr ''bad input'')]"
  let ?r = "json_response False 422 ''Unprocessable Entity'' (Inr ?d)"
  let ?X = "apiFetch ''/api'' ''key'' (always (Responded ?r)) ''/logs'' (plain_opts (Some 2))"
  have run: "?X = (fst ?X, snd ?X)" by simp
  have made: "0 \<in> set (attempt_indices (snd ?X))" by (simp add: sample_eval)
  have out: "always (Responded ?r) 0 = Responded ?r" by (simp add: always_def)
  have nok: "\<not> res_ok ?r" by (simp add: json_response_def)
  have body: "read_body ?r = Inr ?d" by (simp add: read_body_def json_response_def)
  have chosen: "JStr ''bad input'' =
        (if truthy (opt_prop ?d ''message'') then opt_prop ?d ''message''
         else if truthy (opt_prop ?d ''error'') then opt_prop ?d ''error''
         else if truthy ?d then ?d
         else if res_statusText ?r \<noteq> [] then JStr (res_statusText ?r)
         else JStr (''HTTP '' @ show_int (res_status ?r)))"
    by simp
  have conv: "to_string (JStr ''bad input'') = Some ''bad input''" by simp
  have nums: "safe_numbers (JStr ''bad input'')" "safe_integer (res_status ?r)"
    by (simp_all add: json_response_def safe_integer_def)
  have h: "res_status ?r = 422 \<and> res_content_type ?r = Some ''application/json'' \<and> res_json ?r = Inr ?d"
    by (simp add: json_response_def)
  from http_error_message_priority [OF run made out nok body chosen conv nums] h
  have "fst ?X = Inl (Thrown \<lparr>err_name = ''Error'', err_message = ''bad input'',
                                   err_status = Some 422,
                                   err_statusText = Some (res_statusText ?r),
                                   err_data = ?d,
                                   err_url = Some (''/api'' @ ''/logs'')\<rparr>)"
    by blast
  then have first: "fst ?X = Inl (Thrown \<lparr>err_name = ''Error'', err_message = ''bad input'',
        err_status = Some 422, err_statusText = Some ''Unprocessable Entity'',
        err_data = ?d, err_url = Some ''/api/logs''\<rparr>)"
    by (simp add: json_response_def)
  show ?thesis unfolding first by (simp add: sample_eval)
qed

text \<open>
  Claim C6 as stated fails: for a response with status 500 whose body does not decode, and
  for one whose body decodes to \<open>{"toString": 1}\<close>, the error that the call throws (with the
  default options) is not built from the response at all: it is the parse error, or the
  \<open>TypeError\<close> of \<open>new Error\<close>, and carries neither status nor body nor URL.
\<close>

theorem http_error_not_built_counterexample:
  "fst (apiFetch ''/api'' ''key''
          (always (Responded (json_response False 500 ''Internal Server Error''
             (Inl (new_Error ''Unexpected token <'')))))
          ''/logs'' (plain_opts None))
     = Inl (Thrown \<lparr>err_name = ''Error'',
                    err_message = ''Failed to parse response: Unexpected token <'',
                    err_status = None, err_statusText = None, err_data = JUndefined,
                    err_url = None\<rparr>)
   \<and> fst (apiFetch ''/api'' ''key''
          (always (Responded (json_response False 500 ''Internal Server Error''
             (Inr (JObj [(''toString'', JNum 1)])))))
          ''/logs'' (plain_opts None))
     = Inl (Thrown \<lparr>err_name = ''TypeError'',
                    err_message = ''Cannot convert object to primitive value'',
                    err_status = None, err_statusText = None, err_data = JUndefined,
                    err_url = None\<rparr>)"
  by (simp add: sample_eval)

text \<open>
  Claim C7, as amended. If an attempt that the call makes receives an ok response whose
  body decodes to \<open>d\<close>, the call returns \<open>d\<close>; this attempt is the last one and clearing its
  timer is the last event. The body is decoded by the content type: when it contains
  \<open>application/json\<close>, \<open>d\<close> is what \<open>json()\<close> resolved to; otherwise, when it contains
  \<open>text/\<close> (as \<open>text/csv\<close> does), \<open>d\<close> is the string that \<open>text()\<close> resolves to, which is
  the body decoded as UTF-8, and is the body byte for byte when that is ASCII; otherwise
  \<open>d\<close> is what \<open>blob()\<close> resolved to if that is truthy, else what \<open>arrayBuffer()\<close>
  resolved to if that is truthy, else \<open>null\<close>.
\<close>

theorem success_returns_parsed_body:
  assumes run: "apiFetch apiBase apiKey fetch path opts = (res, tr)"
    and made: "k \<in> set (attempt_indices tr)"
    and out: "fetch k = Responded r"
    and ok: "res_ok r"
    and body: "read_body r = Inr d"
    and ct: "contentType = (case res_content_type r of None \<Rightarrow> [] | Some t \<Rightarrow> t)"
  shows "res = Inr d \<and> attempt_indices tr = [0 ..< Suc k] \<and> last tr = ClearTimeout k
     \<and> (js_includes contentType ''application/json'' \<longrightarrow> res_json r = Inr d)
     \<and> (\<not> js_includes contentType ''application/json'' \<and> js_includes contentType ''text/''
          \<longrightarrow> (\<exists>bs. res_body r = Inr bs \<and> d = JStr (utf8_decode bs)))
     \<and> (\<not> js_includes contentType ''application/json'' \<and> js_includes contentType ''text/''
          \<and> res_body r = Inr bs \<and> (\<forall>c \<in> set bs. byte c < 128)
          \<longrightarrow> d = JStr bs)
     \<and> (\<not> js_includes contentType ''application/json'' \<and> \<not> js_includes contentType ''text/''
          \<and> res_blob r = Some (Inr b) \<and> truthy b \<longrightarrow> d = b)
     \<and> (\<not> js_includes contentType ''application/json'' \<and> \<not> js_includes contentType ''text/''
          \<and> yields_nothing (res_blob r) \<and> res_arrayBuffer r = Some (Inr a) \<and> truthy a \<longrightarrow> d = a)
     \<and> (\<not> js_includes contentType ''application/json'' \<and> \<not> js_includes contentType ''text/''
          \<and> yields_nothing (res_blob r) \<and> yields_nothing (res_arrayBuffer r) \<longrightarrow> d = JNull)"
proof -
  define c where "c = make_config apiBase apiKey path opts"
  note rp = run_parts [OF run, folded c_def]
  have m: "k \<in> set (attempt_indices (snd (attempts c fetch 0 ThrownUndefined)))"
    using made rp by simp
  have tb: "try_block c fetch k =
      (Inr d, [SetTimeout k (c_timeout c), Fetch (c_url c) (make_init c k), ClearTimeout k])"
    using out body ok by (rule try_block_ok)
  from reach_return [OF m tb] obtain pre where
    r1: "res = Inr d" and r2: "attempt_indices tr = [0 ..< Suc k]"
    and r3: "tr = pre @ [SetTimeout k (c_timeout c), Fetch (c_url c) (make_init c k), ClearTimeout k]"
    using rp by auto
  have r4: "last tr = ClearTimeout k" using r3 by simp
  have j: "js_includes contentType ''application/json'' \<longrightarrow> res_json r = Inr d"
    using body by (auto simp add: read_body_def ct [symmetric])
  have t: "\<not> js_includes contentType ''application/json'' \<and> js_includes contentType ''text/''
          \<longrightarrow> (\<exists>bs. res_body r = Inr bs \<and> d = JStr (utf8_decode bs))"
    using body by (auto simp add: read_body_def res_text_def ct [symmetric] split: sum.splits)
  have asc: "\<not> js_includes contentType ''application/json'' \<and> js_includes contentType ''text/''
          \<and> res_body r = Inr bs \<and> (\<forall>c \<in> set bs. byte c < 128)
          \<longrightarrow> d = JStr bs"
    using t utf8_decode_ascii [of bs] by auto
  have b1: "\<not> js_includes contentType ''application/json'' \<and> \<not> js_includes contentType ''text/''
          \<and> res_blob r = Some (Inr b) \<and> truthy b \<longrightarrow> d = b"
    using body by (auto simp add: read_body_def read_optional_def ct [symmetric])
  have b2: "\<not> js_includes contentType ''application/json'' \<and> \<not> js_includes contentType ''text/''
          \<and> yields_nothing (res_blob r) \<and> res_arrayBuffer r = Some (Inr a) \<and> truthy a \<longrightarrow> d = a"
    using body
    by (auto simp add: read_body_def yields_nothing_def js_or_def ct [symmetric] read_optional_def
        split: sum.splits option.splits)
  have b3: "\<not> js_includes contentType ''application/json'' \<and> \<not> js_includes contentType ''text/''
          \<and> yields_nothing (res_blob r) \<and> yields_nothing (res_arrayBuffer r) \<longrightarrow> d = JNull"
    using body
    by (auto simp add: read_body_def yields_nothing_def js_or_def ct [symmetric]
        split: sum.splits)
  show ?thesis using r1 r2 r4 j t asc b1 b2 b3 by blast
qed

theorem success_returns_parsed_body_witness:
  "apiFetch ''/api'' ''key'' (always (Responded (csv_response ''ts,level''))) ''/logs/export'' (plain_opts (Some 3))
     = (Inr (JStr ''ts,level''),
        [SetTimeout 0 30000,
         Fetch ''/api/logs/export''
           \<lparr>init_headers = [(''X-API-KEY'', ''key''), (''Content-Type'', ''application/json'')],
            init_others = [], init_credentials = ''include'', init_signal = 0\<rparr>,
         ClearTimeout 0])
   \<and> fst (apiFetch ''/api'' ''key''
            (always (Responded (response_with (Some ''text/csv; charset=utf-8'')
               (Inl (new_Error ''Unexpected token'')) (''caf'' @ [CHR 0xC3, CHR 0xA9]) None)))
            ''/logs/export'' (plain_opts (Some 3))) = Inr (JStr (''caf'' @ [CHR 0xC3, CHR 0xA9]))
   \<and> fst (apiFetch ''/api'' ''key''
            (always (Responded (response_with (Some ''application/json; charset=utf-8'')
               (Inr (JArr [JNum 1, JNum 2])) ''[1,2]'' (Some (Inr (JBlob ''[1,2]''))))))
            ''/logs'' (plain_opts (Some 3))) = Inr (JArr [JNum 1, JNum 2])
   \<and> fst (apiFetch ''/api'' ''key''
            (always (Responded (binary_response (Some (Inr (JBlob ''PK''))) (Some (Inr (JArrayBuffer ''PK''))))))
            ''/logs/export'' (plain_opts (Some 3))) = Inr (JBlob ''PK'')
   \<and> fst (apiFetch ''/api'' ''key''
            (always (Responded (binary_response None (Some (Inr (JArrayBuffer ''PK''))))))
            ''/logs/export'' (plain_opts (Some 3))) = Inr (JArrayBuffer ''PK'')
   \<and> fst (apiFetch ''/api'' ''key''
            (always (Responded (binary_response None None)))
            ''/logs/export'' (plain_opts (Some 3))) = Inr JNull"
proof -
  let ?o = "plain_opts (Some 3)"
  let ?r1 = "csv_response ''ts,level''"
  let ?r2 = "binary_response (Some (Inr (JBlob ''PK''))) (Some (Inr (JArrayBuffer ''PK'')))"
  let ?r3 = "binary_response None (Some (Inr (JArrayBuffer ''PK'')))"
  let ?r4 = "binary_response None None"
  let ?X1 = "apiFetch ''/api'' ''key'' (always (Responded ?r1)) ''/logs/export'' ?o"
  let ?X2 = "apiFetch ''/api'' ''key'' (always (Responded ?r2)) ''/logs/export'' ?o"
  let ?X3 = "apiFetch ''/api'' ''key'' (always (Responded ?r3)) ''/logs/export'' ?o"
  let ?X4 = "apiFetch ''/api'' ''key'' (always (Responded ?r4)) ''/logs/export'' ?o"
  have run: "?X1 = (fst ?X1, snd ?X1)" "?X2 = (fst ?X2, snd ?X2)" "?X3 = (fst ?X3, snd ?X3)"
    "?X4 = (fst ?X4, snd ?X4)" by simp_all
  have made: "0 \<in> set (attempt_indices (snd ?X1))" "0 \<in> set (attempt_indices (snd ?X2))"
    "0 \<in> set (attempt_indices (snd ?X3))" "0 \<in> set (attempt_indices (snd ?X4))"
    by (simp_all add: sample_eval)
  have out: "\<And>r. always (Responded r) 0 = Responded r" by (simp add: always_def)
  have ok: "res_ok ?r1" "res_ok ?r2" "res_ok ?r3" "res_ok ?r4"
    by (simp_all add: csv_response_def binary_response_def)
  have body: "read_body ?r1 = Inr (JStr ''ts,level'')" "read_body ?r2 = Inr (JBlob ''PK'')"
    "read_body ?r3 = Inr (JArrayBuffer ''PK'')" "read_body ?r4 = Inr JNull"
    by (simp_all add: read_body_def read_optional_def js_or_def csv_response_def binary_response_def
        res_text_def utf8_decode_def in_range_def byte_def)
  have ct: "''text/csv'' = (case res_content_type ?r1 of None \<Rightarrow> [] | Some t \<Rightarrow> t)"
    "[] = (case res_content_type ?r2 of None \<Rightarrow> [] | Some t \<Rightarrow> t)"
    "[] = (case res_content_type ?r3 of None \<Rightarrow> [] | Some t \<Rightarrow> t)"
    "[] = (case res_content_type ?r4 of None \<Rightarrow> [] | Some t \<Rightarrow> t)"
    by (simp_all add: csv_response_def binary_response_def)
  have tr1: "snd ?X1 = [SetTimeout 0 30000,
         Fetch ''/api/logs/export''
           \<lparr>init_headers = [(''X-API-KEY'', ''key''), (''Content-Type'', ''application/json'')],
            init_others = [], init_credentials = ''include'', init_signal = 0\<rparr>,
         ClearTimeout 0]"
    by (simp add: sample_eval)
  have f1: "fst ?X1 = Inr (JStr ''ts,level'')"
    by (rule success_returns_parsed_body [OF run(1) made(1) out ok(1) body(1) ct(1), THEN conjunct1])
  have f2: "fst ?X2 = Inr (JBlob ''PK'')"
    by (rule success_returns_parsed_body [OF run(2) made(2) out ok(2) body(2) ct(2), THEN conjunct1])
  have f3: "fst ?X3 = Inr (JArrayBuffer ''PK'')"
    by (rule success_returns_parsed_body [OF run(3) made(3) out ok(3) body(3) ct(3), THEN conjunct1])
  have f4: "fst ?X4 = Inr JNull"
    by (rule success_returns_parsed_body [OF run(4) made(4) out ok(4) body(4) ct(4), THEN conjunct1])
  have f5: "fst (apiFetch ''/api'' ''key''
            (always (Responded (response_with (Some ''text/csv; charset=utf-8'')
               (Inl (new_Error ''Unexpected token'')) (''caf'' @ [CHR 0xC3, CHR 0xA9]) None)))
            ''/logs/export'' (plain_opts (Some 3))) = Inr (JStr (''caf'' @ [CHR 0xC3, CHR 0xA9]))"
    by (simp add: sample_eval)
  have f6: "fst (apiFetch ''/api'' ''key''
            (always (Responded (response_with (Some ''application/json; charset=utf-8'')
               (Inr (JArr [JNum 1, JNum 2])) ''[1,2]'' (Some (Inr (JBlob ''[1,2]''))))))
            ''/logs'' (plain_opts (Some 3))) = Inr (JArr [JNum 1, JNum 2])"
    by (simp add: sample_eval)
  show ?thesis using f1 f2 f3 f4 f5 f6 tr1 by (simp add: prod_eq_iff)
qed

text \<open>
  Claim C7 as stated fails in three ways. An ok response whose body does not decode is
  followed, with \<open>retries = 1\<close>, by a wait and a second attempt. A \<open>text/csv\<close> body is not
  returned byte for byte when it starts with a byte order mark (which is dropped) or holds
  a byte that is not UTF-8 (which becomes U+FFFD). And a JSON content type that does not
  contain \<open>application/json\<close>, such as \<open>application/problem+json\<close>, yields the blob and not
  a structured value.
\<close>

theorem success_not_returned_counterexample:
  "schedule (snd (apiFetch ''/api'' ''key''
          (always (Responded (json_response True 200 ''OK'' (Inl (new_Error ''Unexpected token <'')))))
          ''/logs'' (plain_opts (Some 1)))) = [Start 0, Attempt 0, Wait 1000, Start 1, Attempt 1]
   \<and> fst (apiFetch ''/api'' ''key''
          (always (Responded (json_response True 200 ''OK'' (Inl (new_Error ''Unexpected token <'')))))
          ''/logs'' (plain_opts (Some 1)))
       = Inl (Thrown \<lparr>err_name = ''Error'',
                      err_message = ''Failed to parse response: Unexpected token <'',
                      err_status = None, err_statusText = None, err_data = JUndefined, err_url = None\<rparr>)
   \<and> fst (apiFetch ''/api'' ''key''
          (always (Responded (csv_response ([CHR 0xEF, CHR 0xBB, CHR 0xBF] @ ''a,b''))))
          ''/logs/export'' (plain_opts None)) = Inr (JStr ''a,b'')
   \<and> fst (apiFetch ''/api'' ''key''
          (always (Responded (csv_response (''a'' @ [CHR 0xFF] @ ''b''))))
          ''/logs/export'' (plain_opts None)) = Inr (JStr (''a'' @ [CHR 0xEF, CHR 0xBF, CHR 0xBD] @ ''b''))
   \<and> fst (apiFetch ''/api'' ''key''
          (always (Responded (response_with (Some ''application/problem+json'')
             (Inr (JArr [JNum 1, JNum 2])) ''[1,2]'' (Some (Inr (JBlob ''[1,2]''))))))
          ''/logs'' (plain_opts None)) = Inr (JBlob ''[1,2]'')"
  by (simp add: sample_eval)




text \<open>
  Claim C9. The abort timer of an attempt is armed, with the configured timeout, right
  before \<open>fetch\<close> is called (\<open>abort_timer_armed_before_fetch\<close>) and cleared right after a
  response arrives (\<open>abort_timer_cleared_on_response\<close>). It is not cleared
  when \<open>fetch\<close> rejects: at the end of a call the timers still armed are exactly those of
  the attempts that failed at the network level (\<open>armed_timers_after_call\<close>). So the part
  of the claim that no attempt leaves an armed timer behind does not hold of the code: a
  call with the default options whose only attempt fails at the network level throws that
  failure and ends with the timer of attempt 0 armed.
\<close>

theorem network_failure_leaves_timer_armed:
  "apiFetch ''/api'' ''key'' (always (Failed network_error)) ''/logs'' (plain_opts None)
     = (Inl (Thrown network_error),
        [SetTimeout 0 30000,
         Fetch ''/api/logs''
           \<lparr>init_headers = [(''X-API-KEY'', ''key''), (''Content-Type'', ''application/json'')],
            init_others = [], init_credentials = ''include'', init_signal = 0\<rparr>])
   \<and> armed_timers [] (snd (apiFetch ''/api'' ''key'' (always (Failed network_error)) ''/logs'' (plain_opts None)))
       = [0]"
  by (simp add: sample_eval)

text \<open>
  Claim C10. With a negative \<open>retries\<close> the loop body never runs: the call has no effect at
  all (no timer, no request) and throws \<open>undefined\<close>, the initial value of \<open>lastError\<close>.
\<close>

theorem negative_retries_throw_undefined:
  assumes "retries opts = Some n" and "n < 0"
  shows "apiFetch apiBase apiKey fetch path opts = (Inl ThrownUndefined, [])"
proof -
  have "\<not> int 0 \<le> c_retries (make_config apiBase apiKey path opts)"
    using assms by (simp add: make_config_def retries_of_def)
  then show ?thesis unfolding apiFetch_def by (rule attempts_stop)
qed

theorem negative_retries_throw_undefined_witness:
  "retries (plain_opts (Some (- 1))) = Some (- 1) \<and> (- 1 :: int) < 0
   \<and> apiFetch ''/api'' ''key'' (always (Responded (csv_response ''a,b''))) ''/logs'' (plain_opts (Some (- 1)))
       = (Inl ThrownUndefined, [])"
proof -
  have h1: "retries (plain_opts (Some (- 1))) = Some (- 1)" by (simp add: plain_opts_def)
  have h2: "(- 1 :: int) < 0" by simp
  from negative_retries_throw_undefined [OF h1 h2] h1 show ?thesis by simp
qed

end
